theory Spec2Isabelle
  imports Complex_Main "HOL-Library.Multiset" "HOL-Library.Log_Nat"
begin

section \<open>Errors\<close>

text \<open>
  The Python exceptions that the modelled code, and the library calls it makes, can raise.
  A function that can raise returns \<open>error + 'a\<close>, with \<open>Inl\<close> for the exception.
\<close>

datatype error =
  AssertionError | ValueError | IndexError | RuntimeError | ZeroDivisionError | OverflowError

section \<open>Python floats\<close>

text \<open>
  A Python float is an IEEE 754 double. A finite double is modelled by the real number it
  stands for, and an operation on doubles by the exact operation followed by
  \<open>round_double\<close>, the rounding to the nearest double with ties to the even mantissa:
  a value \<open>x\<close> with \<open>2^e \<le> |x| < 2^(e+1)\<close> is rounded to a multiple of \<open>2^(e-52)\<close>,
  and to a multiple of \<open>2^(-1074)\<close> below the normal range. A result of magnitude
  \<open>2^1024\<close> or more stands for an infinity.
\<close>

definition round_half_even :: "real \<Rightarrow> int" where
  "round_half_even y =
     (let f = \<lfloor>y\<rfloor>; r = y - of_int f
      in if r < 1 / 2 then f
         else if 1 / 2 < r then f + 1
         else if even f then f else f + 1)"

text \<open>The integer \<open>e\<close> with \<open>2^e \<le> x < 2^(e+1)\<close>, for a positive \<open>x\<close>.\<close>

definition floor_log2 :: "real \<Rightarrow> int" where
  "floor_log2 x =
     (if 1 \<le> x then int (floorlog 2 (nat \<lfloor>x\<rfloor>)) - 1
      else - int (floorlog 2 (nat (\<lceil>1 / x\<rceil> - 1))))"

definition pow2 :: "int \<Rightarrow> real" where
  "pow2 k = (if 0 \<le> k then 2 ^ nat k else 1 / 2 ^ nat (- k))"

definition round_double :: "real \<Rightarrow> real" where
  "round_double x =
     (if x = 0 then 0
      else (let ulp = pow2 (max (floor_log2 \<bar>x\<bar> - 52) (- 1074))
            in sgn x * (of_int (round_half_even (\<bar>x\<bar> / ulp)) * ulp)))"

text \<open>
  \<open>float(n)\<close> of a Python int, also the conversion of an int operand of a float
  division: the nearest double, and OverflowError for an int too large for a double.
\<close>

definition py_float :: "int \<Rightarrow> error + real" where
  "py_float n =
     (let x = round_double (of_int n)
      in if 2 ^ 1024 \<le> \<bar>x\<bar> then Inl OverflowError else Inr x)"

section \<open>data\_loader.py: the two geometric transforms\<close>

text \<open>
  The transforms read \<open>img.size\<close>, the pair (width, height) of a PIL image, and nothing
  else of the image, so an image is modelled by its size.
\<close>

record image =
  size_w :: int
  size_h :: int

text \<open>
  \<open>F.resize(img, (h, w))\<close> of torchvision with a pair as size: the result has exactly
  that size; PIL refuses a size below 1 with a ValueError.
\<close>

definition F_resize :: "image \<Rightarrow> int \<times> int \<Rightarrow> error + image" where
  "F_resize img hw =
     (case hw of (h, w) \<Rightarrow>
        if h < 1 \<or> w < 1 then Inl ValueError
        else Inr \<lparr>size_w = w, size_h = h\<rparr>)"

text \<open>
  \<open>F.pad(img, (left, top, right, bottom), 0, 'constant')\<close> on a PIL image: a new canvas
  of width \<open>left + w + right\<close> and height \<open>top + h + bottom\<close> filled with the constant,
  with the image pasted at \<open>(left, top)\<close>. A negative border therefore cuts columns or
  rows off; PIL refuses a canvas of negative size with a ValueError.
\<close>

definition F_pad :: "image \<Rightarrow> int \<times> int \<times> int \<times> int \<Rightarrow> error + image" where
  "F_pad img padding =
     (case padding of (l, t, r, b) \<Rightarrow>
        (let w = l + size_w img + r;
             h = t + size_h img + b
         in if w < 0 \<or> h < 0 then Inl ValueError
            else Inr \<lparr>size_w = w, size_h = h\<rparr>))"

text \<open>
  \<open>FixedHeightResize.__call__\<close>. \<open>float(h) / float(w)\<close> converts both sizes and
  divides, with ZeroDivisionError on a zero divisor; the quotient of two converted ints is
  at most the dividend in magnitude, so it is finite. \<open>self.size / aspect_ratio\<close>
  converts the int and divides likewise; its quotient can be infinite, and \<open>math.ceil\<close>
  of an infinite float raises OverflowError.
\<close>

definition FixedHeightResize_call :: "int \<Rightarrow> image \<Rightarrow> error + image" where
  "FixedHeightResize_call sz img =
     (case py_float (size_h img) of
        Inl e \<Rightarrow> Inl e
      | Inr fh \<Rightarrow>
          (case py_float (size_w img) of
             Inl e \<Rightarrow> Inl e
           | Inr fw \<Rightarrow>
               if fw = 0 then Inl ZeroDivisionError
               else
                 (let aspect_ratio = round_double (fh / fw)
                  in case py_float sz of
                       Inl e \<Rightarrow> Inl e
                     | Inr fs \<Rightarrow>
                         if aspect_ratio = 0 then Inl ZeroDivisionError
                         else
                           (let q = round_double (fs / aspect_ratio)
                            in if 2 ^ 1024 \<le> \<bar>q\<bar> then Inl OverflowError
                               else F_resize img (sz, \<lceil>q\<rceil>)))))"

text \<open>
  The width that the resize asks for when nothing raises:
  \<open>math.ceil(self.size / (float(h) / float(w)))\<close> in double arithmetic.
\<close>

definition new_w :: "int \<Rightarrow> image \<Rightarrow> int" where
  "new_w sz img =
     \<lceil>round_double
        (round_double (of_int sz)
         / round_double (round_double (of_int (size_h img))
                         / round_double (of_int (size_w img))))\<rceil>"

text \<open>\<open>FixedWidthPad.__call__\<close>; \<open>//\<close> is Python's floor division, as \<open>div\<close> on int is.\<close>

definition pad_of :: "int \<Rightarrow> image \<Rightarrow> int" where
  "pad_of sz img = sz - size_w img"

definition pad_left :: "int \<Rightarrow> image \<Rightarrow> int" where
  "pad_left sz img = pad_of sz img div 2"

definition pad_right :: "int \<Rightarrow> image \<Rightarrow> int" where
  "pad_right sz img = pad_of sz img - pad_left sz img"

definition FixedWidthPad_call :: "int \<Rightarrow> image \<Rightarrow> error + image" where
  "FixedWidthPad_call sz img = F_pad img (pad_left sz img, 0, pad_right sz img, 0)"

text \<open>
  The fixed-height branch of the pipeline applies the resize and then the pad
  (\<open>transforms.Compose\<close> runs its stages in order; an exception ends the run).
\<close>

definition resize_then_pad :: "int \<Rightarrow> int \<Rightarrow> image \<Rightarrow> error + image" where
  "resize_then_pad h w img =
     (case FixedHeightResize_call h img of
        Inl e \<Rightarrow> Inl e
      | Inr img' \<Rightarrow> FixedWidthPad_call w img')"

section \<open>data\_loader.py: get\_data\<close>

text \<open>The stages that \<open>get_data\<close> composes, with the arguments it gives them.\<close>

datatype transform =
    Grayscale int
  | RandomGrayscale real
  | ToTensor
  | Normalize "real list" "real list"
  | GaussianBlur int
  | DefocusBlur int real
  | ColorJitter real
  | JpegCompression int real
  | RandomRotation int
  | Resize int int
  | FixedHeightResize int
  | FixedWidthPad int

datatype dataset_class = HandWritttenDataset | HandWrittenDatasetV2

datatype collate = collate_fn_ctc | collate_fn

record args =
  grayscale :: bool
  resize :: int
  height :: int
  width :: int
  model_name :: string
  train :: bool
  num_samples :: int

text \<open>
  \<open>np.random\<close> is a library with a global generator state. The model passes the state
  along: \<open>np_seed\<close> is \<open>np.random.seed\<close>, \<open>np_shuffle\<close> is \<open>np.random.shuffle\<close>
  (the shuffled array and the next state), \<open>np_choice\<close> is \<open>np.random.choice\<close> with
  \<open>replace=False\<close> on a population that is large enough. The generator itself is a
  parameter of \<open>get_data\<close>; what the library promises of it is \<open>np_random_ok\<close>.
\<close>

record 'g np_random =
  np_seed :: "int \<Rightarrow> 'g"
  np_shuffle :: "nat list \<Rightarrow> 'g \<Rightarrow> nat list \<times> 'g"
  np_choice :: "nat list \<Rightarrow> nat \<Rightarrow> 'g \<Rightarrow> nat list \<times> 'g"

definition np_random_ok :: "'g np_random \<Rightarrow> bool" where
  "np_random_ok R \<longleftrightarrow>
     (\<forall>xs g. mset (fst (np_shuffle R xs g)) = mset xs) \<and>
     (\<forall>xs n g. n \<le> length xs \<longrightarrow>
        length (fst (np_choice R xs n g)) = n \<and> mset (fst (np_choice R xs n g)) \<subseteq># mset xs)"

definition np_arange :: "nat \<Rightarrow> nat \<Rightarrow> nat list" where
  "np_arange a b = [a..<b]"

text \<open>
  \<open>np.random.choice(a, size, replace=False)\<close> raises a ValueError when \<open>size\<close> exceeds
  the population. It is called only with \<open>size > 0\<close>.
\<close>

definition random_choice ::
  "'g np_random \<Rightarrow> nat list \<Rightarrow> int \<Rightarrow> 'g \<Rightarrow> error + (nat list \<times> 'g)" where
  "random_choice R xs n g =
     (if int (length xs) < n then Inl ValueError
      else Inr (np_choice R xs (nat n) g))"

text \<open>
  A dataset object as \<open>get_data\<close> constructs it: its class, its \<open>name\<close> argument, its
  transform, and its length \<open>len(dataset)\<close>, the number of samples the constructor finds
  on disk (the constructors are not part of the modelled files).
\<close>

record dataset_obj =
  ds_class :: dataset_class
  ds_name :: string
  ds_transform :: "transform list"
  ds_len :: nat

text \<open>
  \<open>Subset(dataset, indices)\<close> keeps the indices as they are and reads the dataset only
  when a sample is fetched; \<open>Whole\<close> is the dataset itself.
\<close>

datatype data_set = Whole dataset_obj | Subset dataset_obj "nat list"

fun len_data_set :: "data_set \<Rightarrow> nat" where
  "len_data_set (Whole d) = ds_len d"
| "len_data_set (Subset d inds) = length inds"

fun indices :: "data_set \<Rightarrow> nat list option" where
  "indices (Whole d) = None"
| "indices (Subset d inds) = Some inds"

text \<open>
  \<open>DataLoader(dataset, batch_size=..., shuffle=..., drop_last=..., collate_fn=...)\<close>.
  The constructor raises ValueError when \<open>shuffle\<close> is set on an empty dataset (the random
  sampler wants a positive number of samples) and when \<open>batch_size\<close> is not positive.
\<close>

record data_loader =
  dl_dataset :: data_set
  dl_batch_size :: int
  dl_shuffle :: bool
  dl_drop_last :: bool
  dl_collate_fn :: "collate option"

definition DataLoader ::
  "data_set \<Rightarrow> int \<Rightarrow> bool \<Rightarrow> bool \<Rightarrow> collate option \<Rightarrow> error + data_loader" where
  "DataLoader ds batch_size shuffle drop_last coll =
     (if shuffle \<and> len_data_set ds = 0 then Inl ValueError
      else if batch_size \<le> 0 then Inl ValueError
      else Inr \<lparr>dl_dataset = ds, dl_batch_size = batch_size, dl_shuffle = shuffle,
                dl_drop_last = drop_last, dl_collate_fn = coll\<rparr>)"

text \<open>The six values that \<open>get_data\<close> returns; \<open>val_loader\<close> is \<open>None\<close> as in the source.\<close>

record get_data_result =
  train_loader :: data_loader
  val_loader :: "data_loader option"
  test_loader :: data_loader
  train_dataset :: dataset_obj
  val_dataset :: dataset_obj
  test_dataset :: dataset_obj

definition tensor_normalize :: "transform list" where
  "tensor_normalize =
     [ToTensor, Normalize [5818 / 10000, 5700 / 10000, 5632 / 10000]
                          [1417 / 10000, 1431 / 10000, 1367 / 10000]]"

definition augmentations :: "int \<Rightarrow> args \<Rightarrow> transform list" where
  "augmentations seed a =
     [GaussianBlur 3, DefocusBlur seed (1 / 10), ColorJitter (1 / 10),
      JpegCompression seed (1 / 10), RandomRotation 15,
      (if grayscale a then Grayscale 3 else RandomGrayscale (2 / 10))]"

definition get_train_transform :: "int \<Rightarrow> args \<Rightarrow> transform list" where
  "get_train_transform seed a =
     (if resize a = 1
      then augmentations seed a @ [Resize (height a) (width a)] @ tensor_normalize
      else augmentations seed a @ [FixedHeightResize (height a), FixedWidthPad (width a)]
             @ tensor_normalize)"

definition get_test_transform :: "args \<Rightarrow> transform list" where
  "get_test_transform a =
     (if resize a = 1
      then (if grayscale a
            then [Grayscale 3, Resize (height a) (width a)] @ tensor_normalize
            else [Resize (height a) (width a)] @ tensor_normalize)
      else (if grayscale a
            then [Grayscale 3, FixedHeightResize (height a), FixedWidthPad (width a)]
                   @ tensor_normalize
            else [FixedHeightResize (height a), FixedWidthPad (width a)]
                   @ tensor_normalize))"

definition get_dataset :: "args \<Rightarrow> dataset_class \<times> collate" where
  "get_dataset a =
     (if model_name a \<in> set [''crnn'', ''cnnctc'']
      then (HandWritttenDataset, collate_fn_ctc)
      else (HandWrittenDatasetV2, collate_fn))"

text \<open>The split of the training branch, lines 126 to 145 of the source.\<close>

definition split_train ::
  "'g np_random \<Rightarrow> 'g \<Rightarrow> args \<Rightarrow> dataset_obj \<Rightarrow> dataset_obj
     \<Rightarrow> error + (data_set \<times> data_set option)" where
  "split_train R g0 a train_ds val_ds =
     (case np_shuffle R (np_arange 0 51000) g0 of (form_inds, g1) \<Rightarrow>
      case np_shuffle R (np_arange 51000 99000) g1 of (wild_inds, g2) \<Rightarrow>
        (let gan_inds = np_arange 99000 103000;
             train_inds = drop 5100 form_inds @ drop 4800 wild_inds @ gan_inds;
             val_inds = take 5100 form_inds @ take 4800 wild_inds
         in if num_samples a > 0
            then (case random_choice R train_inds (num_samples a) g2 of
                    Inl e \<Rightarrow> Inl e
                  | Inr (chosen, g3) \<Rightarrow>
                      Inr (Subset train_ds chosen, Some (Subset val_ds val_inds)))
            else Inr (Subset train_ds train_inds, Some (Subset val_ds val_inds))))"

text \<open>The branch without validation, lines 147 to 151.\<close>

definition split_all ::
  "'g np_random \<Rightarrow> 'g \<Rightarrow> args \<Rightarrow> dataset_obj \<Rightarrow> error + (data_set \<times> data_set option)" where
  "split_all R g0 a train_ds =
     (if num_samples a > 0
      then (case random_choice R (np_arange 0 (ds_len train_ds)) (num_samples a) g0 of
              Inl e \<Rightarrow> Inl e
            | Inr (chosen, g1) \<Rightarrow> Inr (Subset train_ds chosen, None))
      else Inr (Whole train_ds, None))"

text \<open>
  \<open>get_data\<close>. \<open>np.random.seed\<close> raises ValueError for a seed outside \<open>[0, 2^32)\<close>.
  \<open>corpus_len\<close> and \<open>test_len\<close> are the numbers of samples that the dataset constructors
  find for the training directory and for the public test directory. The validation
  loader is built in training mode only, which is when \<open>val_set\<close> is not \<open>None\<close>.
\<close>

definition get_data ::
  "'g np_random \<Rightarrow> nat \<Rightarrow> nat \<Rightarrow> int \<Rightarrow> int \<Rightarrow> args \<Rightarrow> error + get_data_result" where
  "get_data R corpus_len test_len batch_size seed a =
     (if seed < 0 \<or> 2 ^ 32 \<le> seed then Inl ValueError
      else
        (let g0 = np_seed R seed;
             train_tf = get_train_transform seed a;
             test_tf = get_test_transform a
         in case get_dataset a of (ds, coll) \<Rightarrow>
            (let train_ds = \<lparr>ds_class = ds, ds_name = ''train'',
                             ds_transform = train_tf, ds_len = corpus_len\<rparr>;
                 val_ds = \<lparr>ds_class = ds, ds_name = ''train'',
                           ds_transform = test_tf, ds_len = corpus_len\<rparr>;
                 test_ds = \<lparr>ds_class = ds, ds_name = ''public_test'',
                            ds_transform = test_tf, ds_len = test_len\<rparr>
             in case (if train a then split_train R g0 a train_ds val_ds
                      else split_all R g0 a train_ds) of
                  Inl e \<Rightarrow> Inl e
                | Inr (train_set, val_set) \<Rightarrow>
                    (case DataLoader train_set batch_size True True (Some coll) of
                       Inl e \<Rightarrow> Inl e
                     | Inr trl \<Rightarrow>
                         (case (case val_set of
                                  None \<Rightarrow> Inr None
                                | Some vs \<Rightarrow>
                                    (case DataLoader vs batch_size False False (Some coll) of
                                       Inl e \<Rightarrow> Inl e
                                     | Inr vl \<Rightarrow> Inr (Some vl))) of
                            Inl e \<Rightarrow> Inl e
                          | Inr val \<Rightarrow>
                              (case DataLoader (Whole test_ds) batch_size False False None of
                                 Inl e \<Rightarrow> Inl e
                               | Inr tel \<Rightarrow>
                                   Inr \<lparr>train_loader = trl, val_loader = val,
                                        test_loader = tel, train_dataset = train_ds,
                                        val_dataset = val_ds, test_dataset = test_ds\<rparr>))))))"

text \<open>
  The shuffled ranges of a run, and the index lists that the loaders of a result draw
  from.
\<close>

definition form_shuffled :: "'g np_random \<Rightarrow> int \<Rightarrow> nat list" where
  "form_shuffled R seed = fst (np_shuffle R (np_arange 0 51000) (np_seed R seed))"

definition wild_shuffled :: "'g np_random \<Rightarrow> int \<Rightarrow> nat list" where
  "wild_shuffled R seed =
     fst (np_shuffle R (np_arange 51000 99000)
            (snd (np_shuffle R (np_arange 0 51000) (np_seed R seed))))"

definition train_indices :: "get_data_result \<Rightarrow> nat list option" where
  "train_indices r = indices (dl_dataset (train_loader r))"

definition val_indices :: "get_data_result \<Rightarrow> nat list option" where
  "val_indices r =
     (case val_loader r of None \<Rightarrow> None | Some vl \<Rightarrow> indices (dl_dataset vl))"

section \<open>sequenceCrossEntropyLoss.py\<close>

text \<open>
  A tensor is its shape and its entries: \<open>size0\<close>, \<open>size1\<close>, \<open>size2\<close> are
  \<open>input.size(0)\<close>, \<open>input.size(1)\<close>, \<open>input.size(2)\<close>, and \<open>at3 t i j c\<close> is the
  entry \<open>t[i, j, c]\<close>, read only inside the shape. The floats of the source are modelled
  by the reals: an entry is a finite number and \<open>log_softmax\<close> is exact and finite.
  Logits that are infinite or NaN, or whose log-softmax is not finite, are outside this
  model; on them the product with the mask is NaN in the source, also where the mask is 0.
  The target is a tensor of integers (the source converts it with \<open>.long()\<close>).
\<close>

record tensor3 =
  size0 :: nat
  size1 :: nat
  size2 :: nat
  at3 :: "nat \<Rightarrow> nat \<Rightarrow> nat \<Rightarrow> real"

record 'a tensor2 =
  rows :: nat
  cols :: nat
  requires_grad :: bool
  at2 :: "nat \<Rightarrow> nat \<Rightarrow> 'a"

text \<open>
  The result is a tensor with one entry. Dividing a tensor by zero raises nothing in
  torch: the entry becomes \<open>inf\<close> or \<open>nan\<close>, which is \<open>NanOrInf\<close> here.
\<close>

datatype scalar = Value real | NanOrInf

fun divide_scalar :: "scalar \<Rightarrow> real \<Rightarrow> scalar" where
  "divide_scalar (Value x) d = (if d = 0 then NanOrInf else Value (x / d))"
| "divide_scalar NanOrInf d = NanOrInf"

record SequenceCrossEntropyLoss =
  weight :: "real list option"
  size_average :: bool
  ignore_index :: int
  sequence_normalize :: bool
  sample_normalize :: bool

text \<open>\<open>__init__\<close>, with its assertion that the two normalisations are not both asked for.\<close>

definition init ::
  "real list option \<Rightarrow> bool \<Rightarrow> int \<Rightarrow> bool \<Rightarrow> bool \<Rightarrow> error + SequenceCrossEntropyLoss" where
  "init w sa ii seqn samn =
     (if (seqn \<and> samn) = False
      then Inr \<lparr>weight = w, size_average = sa, ignore_index = ii,
                sequence_normalize = seqn, sample_normalize = samn\<rparr>
      else Inl AssertionError)"

text \<open>
  The number of leading positions that the slice \<open>[:k]\<close> selects in a dimension of size
  \<open>n\<close>: Python counts a negative \<open>k\<close> from the end and clamps at both ends.
\<close>

definition slice_stop :: "int \<Rightarrow> nat \<Rightarrow> nat" where
  "slice_stop k n = (if k < 0 then nat (int n + k) else min (nat k) n)"

text \<open>
  The loop \<open>for i in range(batch_size): mask[i,:length[i]].fill_(1)\<close> on the mask of
  zeros, after its first \<open>n\<close> rounds. \<open>length[i]\<close> raises IndexError past the end of
  \<open>length\<close>.
\<close>

primrec fill_mask :: "int list \<Rightarrow> nat \<Rightarrow> nat \<Rightarrow> error + (nat \<Rightarrow> nat \<Rightarrow> real)" where
  "fill_mask len def_max_length 0 = Inr (\<lambda>i j. 0)"
| "fill_mask len def_max_length (Suc n) =
     (case fill_mask len def_max_length n of
        Inl e \<Rightarrow> Inl e
      | Inr msk \<Rightarrow>
          if n < length len
          then Inr (msk(n := (\<lambda>j. if j < slice_stop (len ! n) def_max_length then 1
                                      else msk n j)))
          else Inl IndexError)"

text \<open>Python's \<open>max\<close> of a sequence raises ValueError on an empty one.\<close>

definition py_max :: "int list \<Rightarrow> error + int" where
  "py_max xs = (case xs of [] \<Rightarrow> Inl ValueError | x # ys \<Rightarrow> Inr (fold max ys x))"

text \<open>\<open>F.log_softmax\<close> along a row \<open>x\<close> of \<open>C\<close> classes.\<close>

definition log_softmax :: "nat \<Rightarrow> (nat \<Rightarrow> real) \<Rightarrow> nat \<Rightarrow> real" where
  "log_softmax C x c = x c - ln (\<Sum>k<C. exp (x k))"

text \<open>
  \<open>input.gather(1, index)\<close> with \<open>input\<close> of shape \<open>(N, C)\<close> and \<open>index\<close> of shape
  \<open>(M, 1)\<close>: torch raises a RuntimeError when \<open>index\<close> has more rows than \<open>input\<close> and
  when an index is not a class in \<open>[0, C)\<close>.
\<close>

definition gather ::
  "nat \<Rightarrow> nat \<Rightarrow> (nat \<Rightarrow> nat \<Rightarrow> real) \<Rightarrow> nat \<Rightarrow> (nat \<Rightarrow> int) \<Rightarrow> error + (nat \<Rightarrow> real)" where
  "gather N C inp M idx =
     (if N < M then Inl RuntimeError
      else if \<not> list_all (\<lambda>k. 0 \<le> idx k \<and> idx k < int C) [0..<M] then Inl RuntimeError
      else Inr (\<lambda>k. inp k (nat (idx k))))"

text \<open>The two optional divisions at the end of \<open>forward\<close>.\<close>

definition normalize :: "SequenceCrossEntropyLoss \<Rightarrow> real \<Rightarrow> nat \<Rightarrow> real \<Rightarrow> scalar" where
  "normalize self mask_sum batch_size output =
     (let o1 = (if sequence_normalize self then divide_scalar (Value output) mask_sum
                else Value output)
      in if sample_normalize self then divide_scalar o1 (real batch_size) else o1)"

text \<open>
  \<open>forward\<close>. Row \<open>k\<close> of a tensor flattened by \<open>view\<close> is entry
  \<open>(k div n, k mod n)\<close>, with \<open>n\<close> the size of the second dimension; \<open>view(-1, C)\<close>
  raises a RuntimeError when \<open>C = 0\<close>, since the tensor is then empty and \<open>-1\<close> is
  ambiguous.
\<close>

definition forward ::
  "SequenceCrossEntropyLoss \<Rightarrow> tensor3 \<Rightarrow> int tensor2 \<Rightarrow> int list \<Rightarrow> error + scalar" where
  "forward self inp target len =
     (if requires_grad target then Inl AssertionError
      else
        (let batch_size = rows target; def_max_length = cols target
         in case fill_mask len def_max_length batch_size of
              Inl e \<Rightarrow> Inl e
            | Inr msk \<Rightarrow>
                (case py_max len of
                   Inl e \<Rightarrow> Inl e
                 | Inr max_length \<Rightarrow>
                     if max_length \<noteq> int (size1 inp) then Inl AssertionError
                     else
                       (let n = slice_stop max_length def_max_length;
                            target_flat = (\<lambda>k. at2 target (k div n) (k mod n));
                            mask_flat = (\<lambda>k. msk (k div n) (k mod n));
                            M = batch_size * n;
                            N = size0 inp * size1 inp
                        in if size2 inp = 0 then Inl RuntimeError
                           else
                             (let input_flat =
                                    (\<lambda>k. log_softmax (size2 inp)
                                            (at3 inp (k div size1 inp) (k mod size1 inp)))
                              in case gather N (size2 inp) input_flat M target_flat of
                                   Inl e \<Rightarrow> Inl e
                                 | Inr gathered \<Rightarrow>
                                     Inr (normalize self (\<Sum>k<M. mask_flat k) batch_size
                                            (\<Sum>k<M. - gathered k * mask_flat k)))))))"

subsection \<open>The standard cross-entropy, for comparison\<close>

text \<open>
  The cross-entropy of a position is the negative logarithm of the softmax probability of
  its target class, \<open>- ln (softmax(input[i, t])[target[i, t]])\<close>. The standard mean
  cross-entropy is its average over all positions of all samples, as
  \<open>F.cross_entropy\<close> with its default reduction computes it on the flattened batch.
  These definitions follow the specification's words, not the source.
\<close>

definition softmax :: "nat \<Rightarrow> (nat \<Rightarrow> real) \<Rightarrow> nat \<Rightarrow> real" where
  "softmax C x c = exp (x c) / (\<Sum>k<C. exp (x k))"

definition cross_entropy :: "tensor3 \<Rightarrow> int tensor2 \<Rightarrow> nat \<Rightarrow> real" where
  "cross_entropy inp target i =
     (\<Sum>t<size1 inp. - ln (softmax (size2 inp) (at3 inp i t) (nat (at2 target i t))))"

definition standard_mean_cross_entropy :: "tensor3 \<Rightarrow> int tensor2 \<Rightarrow> real" where
  "standard_mean_cross_entropy inp target =
     (\<Sum>i<size0 inp. cross_entropy inp target i) / real (size0 inp * size1 inp)"

section \<open>Concrete inputs\<close>

text \<open>A generator whose shuffle reverses and whose choice takes a prefix.\<close>

definition rev_random :: "int np_random" where
  "rev_random =
     \<lparr>np_seed = (\<lambda>seed. seed),
      np_shuffle = (\<lambda>xs g. (rev xs, g + 1)),
      np_choice = (\<lambda>xs n g. (take n xs, g + 1))\<rparr>"

text \<open>A generator that leaves every array as it is.\<close>

definition id_random :: "unit np_random" where
  "id_random =
     \<lparr>np_seed = (\<lambda>seed. ()),
      np_shuffle = (\<lambda>xs g. (xs, g)),
      np_choice = (\<lambda>xs n g. (take n xs, g))\<rparr>"

definition train_args :: args where
  "train_args =
     \<lparr>grayscale = False, resize = 0, height = 64, width = 768,
      model_name = ''crnn'', train = True, num_samples = 0\<rparr>"

definition odd_args :: args where
  "odd_args =
     \<lparr>grayscale = True, resize = 7, height = 32, width = 128,
      model_name = ''resnet'', train = False, num_samples = 0\<rparr>"

definition transformer_args :: args where
  "transformer_args =
     \<lparr>grayscale = False, resize = - 3, height = 48, width = 512,
      model_name = ''transformer'', train = False, num_samples = 0\<rparr>"

definition plain_loss :: SequenceCrossEntropyLoss where
  "plain_loss =
     \<lparr>weight = None, size_average = True, ignore_index = - 100,
      sequence_normalize = False, sample_normalize = True\<rparr>"

text \<open>Logits that are all zero, over two classes, and targets that are all the class \<open>c\<close>.\<close>

definition zero_logits :: "nat \<Rightarrow> nat \<Rightarrow> tensor3" where
  "zero_logits b t = \<lparr>size0 = b, size1 = t, size2 = 2, at3 = (\<lambda>i j c. 0)\<rparr>"

definition const_target :: "nat \<Rightarrow> nat \<Rightarrow> int \<Rightarrow> int tensor2" where
  "const_target b d c = \<lparr>rows = b, cols = d, requires_grad = False, at2 = (\<lambda>i j. c)\<rparr>"

text \<open>
  Two samples of two steps over two classes: the first sample has zero logits, the second
  has logits that depend on the class; the third target column holds no class.
\<close>

definition logits_a :: tensor3 where
  "logits_a = \<lparr>size0 = 2, size1 = 2, size2 = 2,
               at3 = (\<lambda>i j c. if i = 1 then 7 * real c - 3 else 0)\<rparr>"

definition target_a :: "int tensor2" where
  "target_a = \<lparr>rows = 2, cols = 3, requires_grad = False,
               at2 = (\<lambda>i j. if i = 1 \<and> j < 2 then 1 else if j < 2 then 0 else 99)\<rparr>"

text \<open>
  Two samples of two steps over two classes with the logits \<open>0\<close> and \<open>ln 3\<close> at every
  position, so that the softmax probabilities are \<open>1/4\<close> and \<open>3/4\<close>; the targets are
  \<open>0, 1\<close> for the first sample and \<open>1, 1\<close> for the second.
\<close>

definition logits_b :: tensor3 where
  "logits_b = \<lparr>size0 = 2, size1 = 2, size2 = 2,
               at3 = (\<lambda>i j c. if c = 0 then 0 else ln 3)\<rparr>"

definition target_b :: "int tensor2" where
  "target_b = \<lparr>rows = 2, cols = 2, requires_grad = False,
               at2 = (\<lambda>i j. if i = 0 \<and> j = 0 then 0 else 1)\<rparr>"

section \<open>Properties of the rounding to doubles\<close>

lemma pow2_powi: "pow2 k = 2 powi k"
  by (simp add: pow2_def power_int_def inverse_eq_divide power_one_over)

lemma pow2_pos: "0 < pow2 k"
  by (simp add: pow2_def)

lemma pow2_minus_52: "pow2 (e - 52) = pow2 e / 2 ^ 52"
  by (simp add: pow2_powi power_int_diff)

lemma floorlog_pos: "0 < n \<Longrightarrow> 0 < floorlog 2 n"
  by (simp add: floorlog_def)

lemma pow2_floor_log2_le:
  assumes "0 < x"
  shows "pow2 (floor_log2 x) \<le> x"
proof (cases "1 \<le> x")
  case True
  define n where "n = nat \<lfloor>x\<rfloor>"
  have n: "0 < n" "real n \<le> x"
    using True by (simp_all add: n_def)
  have "2 ^ (floorlog 2 n - 1) \<le> n"
    using floorlog_bounds[of n 2] n(1) by simp
  then have r: "(2::real) ^ (floorlog 2 n - 1) \<le> real n"
    by (metis of_nat_le_iff of_nat_numeral of_nat_power)
  have "floor_log2 x = int (floorlog 2 n - 1)"
    using True floorlog_pos[OF n(1)] by (simp add: floor_log2_def n_def)
  then have "pow2 (floor_log2 x) = 2 ^ (floorlog 2 n - 1)"
    by (simp add: pow2_def)
  with r n(2) show ?thesis by linarith
next
  case False
  define z where "z = \<lceil>1 / x\<rceil>"
  define m where "m = nat (z - 1)"
  define k where "k = floorlog 2 m"
  have big: "1 < 1 / x" using False assms by simp
  have up: "1 / x \<le> of_int z" unfolding z_def by (rule le_of_int_ceiling)
  with big have "1 < z" by linarith
  then have m: "0 < m" "int m = z - 1" by (simp_all add: m_def)
  have "m < 2 ^ k"
    using floorlog_bounds[of m 2] m(1) by (simp add: k_def)
  then have "int m < 2 ^ k"
    by (metis of_nat_less_iff of_nat_numeral of_nat_power)
  then have "z \<le> 2 ^ k" using m(2) by linarith
  then have "real_of_int z \<le> 2 ^ k"
    by (metis of_int_le_iff of_int_numeral of_int_power)
  with up have "1 / x \<le> 2 ^ k" by linarith
  then have r: "1 / 2 ^ k \<le> x"
    using assms by (simp add: field_simps)
  have "floor_log2 x = - int k"
    using False by (simp add: floor_log2_def k_def m_def z_def)
  moreover have "0 < k" using floorlog_pos[OF m(1)] by (simp add: k_def)
  ultimately have "pow2 (floor_log2 x) = 1 / 2 ^ k"
    by (simp add: pow2_def)
  with r show ?thesis by linarith
qed

lemma round_half_even_bounds:
  "y - 1 / 2 \<le> of_int (round_half_even y)" "of_int (round_half_even y) \<le> y + 1 / 2"
  unfolding round_half_even_def Let_def by (auto; linarith)+

lemma round_double_bounds:
  assumes "pow2 (- 1074) \<le> x"
  shows "x / 2 \<le> round_double x" "round_double x \<le> 2 * x"
proof -
  have x: "0 < x" using assms pow2_pos[of "- 1074"] by linarith
  define ulp where "ulp = pow2 (max (floor_log2 \<bar>x\<bar> - 52) (- 1074))"
  define y where "y = x / ulp"
  have u: "0 < ulp" by (simp add: ulp_def pow2_pos)
  have "ulp \<le> x"
  proof (cases "floor_log2 \<bar>x\<bar> - 52 \<le> - 1074")
    case True
    then show ?thesis using assms by (simp add: ulp_def max_def)
  next
    case False
    then have "ulp = pow2 (floor_log2 x) / 2 ^ 52"
      using x by (simp add: ulp_def max_def pow2_minus_52)
    also have "\<dots> \<le> pow2 (floor_log2 x)"
      using pow2_pos[of "floor_log2 x"] by (simp add: field_simps)
    also have "\<dots> \<le> x" by (rule pow2_floor_log2_le[OF x])
    finally show ?thesis .
  qed
  then have y1: "1 \<le> y" using u by (simp add: y_def field_simps)
  have rd: "round_double x = of_int (round_half_even y) * ulp"
    using x by (simp add: round_double_def Let_def ulp_def y_def)
  have xy: "x = y * ulp" using u by (simp add: y_def)
  have "y / 2 \<le> of_int (round_half_even y)"
    using round_half_even_bounds(1)[of y] y1 by linarith
  then have "y / 2 * ulp \<le> of_int (round_half_even y) * ulp"
    using u by (simp only: mult_le_cancel_right_pos)
  moreover have "x / 2 = y / 2 * ulp" using u by (simp add: y_def)
  ultimately show "x / 2 \<le> round_double x" by (simp only: rd)
  have "of_int (round_half_even y) \<le> 2 * y"
    using round_half_even_bounds(2)[of y] y1 by linarith
  then have "of_int (round_half_even y) * ulp \<le> 2 * y * ulp"
    using u by (simp only: mult_le_cancel_right_pos)
  moreover have "2 * x = 2 * y * ulp" using u by (simp add: y_def)
  ultimately show "round_double x \<le> 2 * x" by (simp only: rd)
qed

lemma pow2_small: "pow2 (- 1074) \<le> 1 / 2 ^ 40"
proof -
  have "(2::real) ^ 40 \<le> 2 ^ 1074" by (rule power_increasing) simp_all
  then show ?thesis by (simp add: pow2_def field_simps)
qed

lemma round_double_range:
  assumes "1 / 2 ^ 40 \<le> x"
  shows "x / 2 \<le> round_double x" "round_double x \<le> 2 * x"
  using round_double_bounds[of x] assms pow2_small by linarith+

section \<open>Properties of the geometric transforms\<close>

lemmas float_eval =
  round_double_def floor_log2_def pow2_def round_half_even_def compute_floorlog Let_def

lemma round_double_int_range:
  assumes "1 \<le> n" "n < 2 ^ 31"
  shows "1 / 2 \<le> round_double (of_int n)" "round_double (of_int n) \<le> 2 ^ 32"
proof -
  have n: "1 \<le> real_of_int n" "real_of_int n \<le> 2 ^ 31"
    using assms by (simp_all add: less_imp_le)
  have "(1::real) / 2 ^ 40 \<le> 1" by simp
  with n(1) have small: "1 / 2 ^ 40 \<le> real_of_int n" by linarith
  show "1 / 2 \<le> round_double (of_int n)"
    using round_double_range(1)[OF small] n(1) by linarith
  show "round_double (of_int n) \<le> 2 ^ 32"
    using round_double_range(2)[OF small] n(2) by simp
qed

lemma py_float_range:
  assumes "1 \<le> n" "n < 2 ^ 31"
  shows "py_float n = Inr (round_double (of_int n))"
proof -
  have "(2::real) ^ 32 < 2 ^ 1024" by (rule power_strict_increasing) simp_all
  with round_double_int_range[OF assms]
  have "\<bar>round_double (of_int n)\<bar> < 2 ^ 1024" by linarith
  then show ?thesis by (simp add: py_float_def Let_def)
qed

lemma quotient_range:
  fixes a b :: real
  assumes "la \<le> a" "a \<le> ua" "lb \<le> b" "b \<le> ub" "0 < la" "0 < lb"
  shows "la / ub \<le> a / b" "a / b \<le> ua / lb"
proof -
  show "la / ub \<le> a / b"
    by (rule frac_le) (use assms in linarith)+
  show "a / b \<le> ua / lb"
    by (rule frac_le) (use assms in linarith)+
qed

lemma rounded_range:
  fixes x r :: real
  assumes "l \<le> x" "x \<le> u" "x / 2 \<le> r" "r \<le> 2 * x"
  shows "l / 2 \<le> r" "r \<le> 2 * u"
  using assms by linarith+

lemma resize_quotient_range:
  assumes "0 < size_w img" "size_w img < 2 ^ 31" "0 < size_h img" "size_h img < 2 ^ 31"
    and "0 < H" "H < 2 ^ 31"
  defines "fh \<equiv> round_double (of_int (size_h img))"
    and "fw \<equiv> round_double (of_int (size_w img))"
    and "fs \<equiv> round_double (of_int H)"
  defines "aspect \<equiv> round_double (fh / fw)"
  defines "q \<equiv> round_double (fs / aspect)"
  shows "0 < fw" "0 < aspect" "0 < q" "q < 2 ^ 1024"
proof -
  have h: "1 / 2 \<le> fh" "fh \<le> 2 ^ 32"
    unfolding fh_def using assms(3,4) by (intro round_double_int_range; simp)+
  have w: "1 / 2 \<le> fw" "fw \<le> 2 ^ 32"
    unfolding fw_def using assms(1,2) by (intro round_double_int_range; simp)+
  have s: "1 / 2 \<le> fs" "fs \<le> 2 ^ 32"
    unfolding fs_def using assms(5,6) by (intro round_double_int_range; simp)+
  show "0 < fw" using w(1) by linarith
  define x where "x = fh / fw"
  have r1: "(1 / 2) / 2 ^ 32 \<le> x" "x \<le> 2 ^ 32 / (1 / 2)"
    unfolding x_def using quotient_range[OF h w] by simp_all
  have "(1::real) / 2 ^ 40 \<le> (1 / 2) / 2 ^ 32" by simp
  with r1(1) have "1 / 2 ^ 40 \<le> x" by linarith
  from round_double_range[OF this] have ra: "x / 2 \<le> aspect" "aspect \<le> 2 * x"
    unfolding aspect_def x_def by simp_all
  have a: "1 / 2 ^ 34 \<le> aspect" "aspect \<le> 2 ^ 34"
    using rounded_range[OF r1 ra] by simp_all
  have "(0::real) < 1 / 2 ^ 34" by simp
  with a(1) show "0 < aspect" by linarith
  define y where "y = fs / aspect"
  have r2: "(1 / 2) / 2 ^ 34 \<le> y" "y \<le> 2 ^ 32 / (1 / 2 ^ 34)"
    unfolding y_def using quotient_range[OF s a] by simp_all
  have "(1::real) / 2 ^ 40 \<le> (1 / 2) / 2 ^ 34" by simp
  with r2(1) have "1 / 2 ^ 40 \<le> y" by linarith
  from round_double_range[OF this] have rq: "y / 2 \<le> q" "q \<le> 2 * y"
    unfolding q_def y_def by simp_all
  have qb: "1 / 2 ^ 36 \<le> q" "q \<le> 2 ^ 67"
    using rounded_range[OF r2 rq] by simp_all
  have "(0::real) < 1 / 2 ^ 36" by simp
  with qb(1) show "0 < q" by linarith
  have "(2::real) ^ 67 < 2 ^ 1024" by (rule power_strict_increasing) simp_all
  with qb(2) show "q < 2 ^ 1024" by linarith
qed

lemma new_w_positive:
  assumes "0 < size_w img" "size_w img < 2 ^ 31" "0 < size_h img" "size_h img < 2 ^ 31"
    and "0 < H" "H < 2 ^ 31"
  shows "1 \<le> new_w H img"
proof -
  have "0 < new_w H img"
    unfolding new_w_def using resize_quotient_range(3)[OF assms] by (simp add: ceiling_less_iff)
  then show ?thesis by simp
qed

lemma FixedHeightResize_call_ok:
  assumes "0 < size_w img" "size_w img < 2 ^ 31" "0 < size_h img" "size_h img < 2 ^ 31"
    and "0 < H" "H < 2 ^ 31"
  shows "FixedHeightResize_call H img = Inr \<lparr>size_w = new_w H img, size_h = H\<rparr>"
proof -
  note r = resize_quotient_range[OF assms]
  have f: "py_float (size_h img) = Inr (round_double (of_int (size_h img)))"
    "py_float (size_w img) = Inr (round_double (of_int (size_w img)))"
    "py_float H = Inr (round_double (of_int H))"
    using assms by (intro py_float_range; simp)+
  have q: "\<not> 2 ^ 1024 \<le> \<bar>round_double (round_double (of_int H)
             / round_double (round_double (of_int (size_h img))
                             / round_double (of_int (size_w img))))\<bar>"
    using r(3,4) by linarith
  have nz: "round_double (of_int (size_w img)) \<noteq> 0"
    "round_double (round_double (of_int (size_h img)) / round_double (of_int (size_w img))) \<noteq> 0"
    using r(1,2) by simp_all
  show ?thesis
    unfolding FixedHeightResize_call_def f Let_def
    using q nz new_w_positive[OF assms] assms(5)
    by (simp add: F_resize_def new_w_def)
qed

lemma pad_left_right_sum: "pad_left W img + pad_right W img = pad_of W img"
  by (simp add: pad_right_def)

lemma FixedWidthPad_call_ok:
  assumes "0 \<le> W" "0 \<le> size_h img"
  shows "FixedWidthPad_call W img = Inr \<lparr>size_w = W, size_h = size_h img\<rparr>"
  using assms
  by (simp add: FixedWidthPad_call_def F_pad_def pad_right_def pad_of_def Let_def)

lemma new_w_100_50: "new_w 32 \<lparr>size_w = 50, size_h = 100\<rparr> = 16"
  by (simp add: new_w_def float_eval)

lemma new_w_20_245: "new_w 32 \<lparr>size_w = 245, size_h = 20\<rparr> = 393"
  by (simp add: new_w_def float_eval)

lemma new_w_70_300: "new_w 32 \<lparr>size_w = 300, size_h = 70\<rparr> = 138"
  by (simp add: new_w_def float_eval)

text \<open>
  Claim C3. For an image of positive width and height, a positive target height \<open>H\<close>
  (all below \<open>2^31\<close>, as the sides of a PIL image are) and a target width \<open>W\<close> that is not
  negative, the resize returns an image of height \<open>H\<close> and of the width
  \<open>ceil(H / (h / w))\<close> as the source computes it, in double arithmetic, and the resize
  followed by the pad returns an image of exactly height \<open>H\<close> and width \<open>W\<close>; the pad is
  \<open>W\<close> minus the resized width, its left part is the pad floor-divided by 2 and its
  right part the rest. A 100 by 50 image (height by width) with target height 32 is
  resized to width 16 and padded to width 32 with 8 columns on each side.
\<close>

theorem resize_then_pad_exact:
  assumes "0 < size_w img" "size_w img < 2 ^ 31" "0 < size_h img" "size_h img < 2 ^ 31"
    and "0 < H" "H < 2 ^ 31" "0 \<le> W"
  shows "FixedHeightResize_call H img =
           Inr \<lparr>size_w = \<lceil>round_double
                              (round_double (of_int H)
                               / round_double (round_double (of_int (size_h img))
                                               / round_double (of_int (size_w img))))\<rceil>,
                size_h = H\<rparr>
         \<and> resize_then_pad H W img = Inr \<lparr>size_w = W, size_h = H\<rparr>
         \<and> (\<forall>r. FixedHeightResize_call H img = Inr r \<longrightarrow>
               pad_of W r = W - size_w r
             \<and> pad_left W r = pad_of W r div 2
             \<and> pad_right W r = pad_of W r - pad_left W r
             \<and> size_w r + pad_left W r + pad_right W r = W)
         \<and> FixedHeightResize_call 32 \<lparr>size_w = 50, size_h = 100\<rparr> = Inr \<lparr>size_w = 16, size_h = 32\<rparr>
         \<and> pad_left 32 \<lparr>size_w = 16, size_h = 32\<rparr> = 8
         \<and> pad_right 32 \<lparr>size_w = 16, size_h = 32\<rparr> = 8
         \<and> resize_then_pad 32 32 \<lparr>size_w = 50, size_h = 100\<rparr> = Inr \<lparr>size_w = 32, size_h = 32\<rparr>"
proof -
  have r: "FixedHeightResize_call H img = Inr \<lparr>size_w = new_w H img, size_h = H\<rparr>"
    by (rule FixedHeightResize_call_ok[OF assms(1-6)])
  have p: "resize_then_pad H W img = Inr \<lparr>size_w = W, size_h = H\<rparr>"
    using assms(5,7) by (simp add: resize_then_pad_def r FixedWidthPad_call_ok)
  have a: "\<forall>r. FixedHeightResize_call H img = Inr r \<longrightarrow>
               pad_of W r = W - size_w r
             \<and> pad_left W r = pad_of W r div 2
             \<and> pad_right W r = pad_of W r - pad_left W r
             \<and> size_w r + pad_left W r + pad_right W r = W"
    by (simp add: pad_of_def pad_left_def pad_right_def)
  have e1: "FixedHeightResize_call 32 \<lparr>size_w = 50, size_h = 100\<rparr> = Inr \<lparr>size_w = 16, size_h = 32\<rparr>"
    using FixedHeightResize_call_ok[of "\<lparr>size_w = 50, size_h = 100\<rparr>" 32]
    by (simp add: new_w_100_50)
  have e2: "pad_left 32 \<lparr>size_w = 16, size_h = 32\<rparr> = 8" "pad_right 32 \<lparr>size_w = 16, size_h = 32\<rparr> = 8"
    by (simp_all add: pad_of_def pad_left_def pad_right_def)
  have e3: "resize_then_pad 32 32 \<lparr>size_w = 50, size_h = 100\<rparr> = Inr \<lparr>size_w = 32, size_h = 32\<rparr>"
    by (simp add: resize_then_pad_def e1 FixedWidthPad_call_ok)
  show ?thesis using r p a e1 e2 e3 unfolding new_w_def by blast
qed

text \<open>
  The hypotheses of C3 hold for a 20 by 245 image with target height 32 and width 128. The
  double quotient \<open>32 / (20 / 245)\<close> lies just above 392, so the resized width is 393,
  and the pad cuts 133 and 132 columns off.
\<close>

theorem resize_then_pad_exact_witness:
  "(0::int) < size_w \<lparr>size_w = 245, size_h = 20\<rparr>
   \<and> size_w \<lparr>size_w = 245, size_h = 20\<rparr> < 2 ^ 31
   \<and> (0::int) < size_h \<lparr>size_w = 245, size_h = 20\<rparr>
   \<and> size_h \<lparr>size_w = 245, size_h = 20\<rparr> < 2 ^ 31
   \<and> (0::int) < 32 \<and> (32::int) < 2 ^ 31 \<and> (0::int) \<le> 128
   \<and> FixedHeightResize_call 32 \<lparr>size_w = 245, size_h = 20\<rparr> = Inr \<lparr>size_w = 393, size_h = 32\<rparr>
   \<and> resize_then_pad 32 128 \<lparr>size_w = 245, size_h = 20\<rparr> = Inr \<lparr>size_w = 128, size_h = 32\<rparr>
   \<and> pad_left 128 \<lparr>size_w = 393, size_h = 32\<rparr> = -133
   \<and> pad_right 128 \<lparr>size_w = 393, size_h = 32\<rparr> = -132"
proof -
  have w: "\<lceil>round_double (round_double (of_int 32)
             / round_double (round_double (of_int (size_h \<lparr>size_w = 245, size_h = 20\<rparr>))
                 / round_double (of_int (size_w \<lparr>size_w = 245, size_h = 20\<rparr>))))\<rceil> = 393"
    using new_w_20_245 by (simp add: new_w_def)
  show ?thesis
    using resize_then_pad_exact[of "\<lparr>size_w = 245, size_h = 20\<rparr>" 32 128]
    unfolding w
    by (simp add: pad_of_def pad_left_def pad_right_def)
qed

text \<open>
  Claim C9. For an image (of height at least 0) and a target width \<open>W\<close> at least 0, the
  pad returns without error an image of width exactly \<open>W\<close> and of the same height. The
  left and right parts always add up to the pad, the left part is the pad floor-divided
  by 2, and the right part is the left part or one more. When the image is wider than
  \<open>W\<close> the pad is negative and both parts are at most 0, the left one the smaller: the
  image loses columns on both sides.
\<close>

theorem FixedWidthPad_call_width:
  assumes "0 \<le> W" "0 \<le> size_h img"
  shows "FixedWidthPad_call W img = Inr \<lparr>size_w = W, size_h = size_h img\<rparr>
         \<and> pad_left W img = pad_of W img div 2
         \<and> pad_left W img + pad_right W img = pad_of W img
         \<and> pad_left W img \<le> pad_right W img
         \<and> pad_right W img \<le> pad_left W img + 1
         \<and> (W < size_w img \<longrightarrow> pad_of W img < 0 \<and> pad_left W img \<le> pad_right W img \<and> pad_right W img \<le> 0)"
proof -
  have "FixedWidthPad_call W img = Inr \<lparr>size_w = W, size_h = size_h img\<rparr>"
    by (rule FixedWidthPad_call_ok[OF assms])
  moreover have "pad_left W img = pad_of W img div 2"
    by (simp add: pad_left_def)
  moreover have "pad_left W img + pad_right W img = pad_of W img"
    by (rule pad_left_right_sum)
  moreover have "pad_left W img \<le> pad_right W img" "pad_right W img \<le> pad_left W img + 1"
    unfolding pad_left_def pad_right_def by presburger+
  moreover have "W < size_w img \<longrightarrow> pad_of W img < 0 \<and> pad_right W img \<le> 0"
    unfolding pad_left_def pad_right_def pad_of_def by presburger
  ultimately show ?thesis by blast
qed

text \<open>
  The hypotheses of C9 hold for an image of width 37 padded to width 32: the pad is -5,
  split as -3 and -2.
\<close>

theorem FixedWidthPad_call_width_witness:
  "(0::int) \<le> 32 \<and> (0::int) \<le> size_h \<lparr>size_w = 37, size_h = 10\<rparr>
   \<and> (32::int) < size_w \<lparr>size_w = 37, size_h = 10\<rparr>
   \<and> FixedWidthPad_call 32 \<lparr>size_w = 37, size_h = 10\<rparr> = Inr \<lparr>size_w = 32, size_h = 10\<rparr>
   \<and> pad_of 32 \<lparr>size_w = 37, size_h = 10\<rparr> = -5
   \<and> pad_left 32 \<lparr>size_w = 37, size_h = 10\<rparr> = -3
   \<and> pad_right 32 \<lparr>size_w = 37, size_h = 10\<rparr> = -2"
  using FixedWidthPad_call_width[of 32 "\<lparr>size_w = 37, size_h = 10\<rparr>"]
  by (simp add: pad_of_def pad_left_def pad_right_def)

section \<open>Properties of the split\<close>

lemma set_np_arange: "set (np_arange a b) = {a..<b}"
  by (simp add: np_arange_def)

lemma distinct_np_arange: "distinct (np_arange a b)"
  by (simp add: np_arange_def)

lemma length_np_arange: "length (np_arange a b) = b - a"
  by (simp add: np_arange_def)

lemma shuffle_set:
  assumes "np_random_ok R"
  shows "set (fst (np_shuffle R (np_arange a b) g)) = {a..<b}"
proof -
  have "mset (fst (np_shuffle R (np_arange a b) g)) = mset (np_arange a b)"
    using assms by (simp add: np_random_ok_def)
  then have "set (fst (np_shuffle R (np_arange a b) g)) = set (np_arange a b)"
    by (rule mset_eq_setD)
  then show ?thesis by (simp add: set_np_arange)
qed

lemma shuffle_distinct:
  assumes "np_random_ok R"
  shows "distinct (fst (np_shuffle R (np_arange a b) g))"
proof -
  have "mset (fst (np_shuffle R (np_arange a b) g)) = mset (np_arange a b)"
    using assms by (simp add: np_random_ok_def)
  then have "distinct (fst (np_shuffle R (np_arange a b) g)) = distinct (np_arange a b)"
    by (rule mset_eq_imp_distinct_iff)
  then show ?thesis by (simp add: distinct_np_arange)
qed

lemma shuffle_length:
  assumes "np_random_ok R"
  shows "length (fst (np_shuffle R (np_arange a b) g)) = b - a"
proof -
  have "mset (fst (np_shuffle R (np_arange a b) g)) = mset (np_arange a b)"
    using assms by (simp add: np_random_ok_def)
  then have "length (fst (np_shuffle R (np_arange a b) g)) = length (np_arange a b)"
    by (rule mset_eq_length)
  then show ?thesis by (simp add: length_np_arange)
qed

lemma mset_take_subset: "mset (take n xs) \<subseteq># mset xs"
proof -
  have "mset xs = mset (take n xs) + mset (drop n xs)"
    by (metis append_take_drop_id mset_append)
  then show ?thesis by (metis mset_subset_eq_add_left)
qed

lemma rev_random_ok: "np_random_ok rev_random"
  by (simp add: np_random_ok_def rev_random_def mset_take_subset)

lemma form_shuffled_set: "np_random_ok R \<Longrightarrow> set (form_shuffled R seed) = {0..<51000}"
  unfolding form_shuffled_def by (rule shuffle_set)

lemma wild_shuffled_set: "np_random_ok R \<Longrightarrow> set (wild_shuffled R seed) = {51000..<99000}"
  unfolding wild_shuffled_def by (rule shuffle_set)

lemma form_shuffled_distinct: "np_random_ok R \<Longrightarrow> distinct (form_shuffled R seed)"
  unfolding form_shuffled_def by (rule shuffle_distinct)

lemma wild_shuffled_distinct: "np_random_ok R \<Longrightarrow> distinct (wild_shuffled R seed)"
  unfolding wild_shuffled_def by (rule shuffle_distinct)

lemma form_shuffled_length: "np_random_ok R \<Longrightarrow> length (form_shuffled R seed) = 51000"
  unfolding form_shuffled_def by (simp add: shuffle_length)

lemma wild_shuffled_length: "np_random_ok R \<Longrightarrow> length (wild_shuffled R seed) = 48000"
  unfolding wild_shuffled_def by (simp add: shuffle_length)

lemma take_drop_sets:
  "set (take n xs) \<union> set (drop n xs) = set xs"
  by (metis append_take_drop_id set_append)

lemma take_drop_disjoint:
  "distinct xs \<Longrightarrow> set (take n xs) \<inter> set (drop n xs) = {}"
  by (rule set_take_disj_set_drop_if_distinct) simp_all

lemma val_no_synthetic:
  assumes "np_random_ok R"
  shows "set (take 5100 (form_shuffled R seed) @ take 4800 (wild_shuffled R seed))
           \<inter> {99000..<103000} = {}"
proof -
  have "set (take 5100 (form_shuffled R seed)) \<subseteq> {0..<51000}"
    using set_take_subset[of 5100 "form_shuffled R seed"] form_shuffled_set[OF assms, of seed]
    by simp
  moreover have "set (take 4800 (wild_shuffled R seed)) \<subseteq> {51000..<99000}"
    using set_take_subset[of 4800 "wild_shuffled R seed"] wild_shuffled_set[OF assms, of seed]
    by simp
  ultimately show ?thesis by auto
qed

lemma train_val_disjoint:
  assumes "np_random_ok R"
  shows "set (drop 5100 (form_shuffled R seed) @ drop 4800 (wild_shuffled R seed)
                @ np_arange 99000 103000)
           \<inter> set (take 5100 (form_shuffled R seed) @ take 4800 (wild_shuffled R seed)) = {}"
proof -
  let ?f = "form_shuffled R seed" and ?w = "wild_shuffled R seed"
  have f: "set (take 5100 ?f) \<subseteq> {0..<51000}" "set (drop 5100 ?f) \<subseteq> {0..<51000}"
    using set_take_subset[of 5100 ?f] set_drop_subset[of 5100 ?f] form_shuffled_set[OF assms, of seed]
    by simp_all
  have w: "set (take 4800 ?w) \<subseteq> {51000..<99000}" "set (drop 4800 ?w) \<subseteq> {51000..<99000}"
    using set_take_subset[of 4800 ?w] set_drop_subset[of 4800 ?w] wild_shuffled_set[OF assms, of seed]
    by simp_all
  have df: "set (take 5100 ?f) \<inter> set (drop 5100 ?f) = {}"
    by (rule take_drop_disjoint[OF form_shuffled_distinct[OF assms]])
  have dw: "set (take 4800 ?w) \<inter> set (drop 4800 ?w) = {}"
    by (rule take_drop_disjoint[OF wild_shuffled_distinct[OF assms]])
  have g: "set (np_arange 99000 103000) = {99000..<103000}"
    by (rule set_np_arange)
  show ?thesis
    unfolding set_append g using f w df dw by fastforce
qed

lemma train_val_union:
  assumes "np_random_ok R"
  shows "set (drop 5100 (form_shuffled R seed) @ drop 4800 (wild_shuffled R seed)
                @ np_arange 99000 103000)
           \<union> set (take 5100 (form_shuffled R seed) @ take 4800 (wild_shuffled R seed))
         = {0..<103000}"
proof -
  let ?f = "form_shuffled R seed" and ?w = "wild_shuffled R seed"
  have f: "set (take 5100 ?f) \<union> set (drop 5100 ?f) = {0..<51000}"
    by (simp only: take_drop_sets form_shuffled_set[OF assms])
  have w: "set (take 4800 ?w) \<union> set (drop 4800 ?w) = {51000..<99000}"
    by (simp only: take_drop_sets wild_shuffled_set[OF assms])
  have g: "set (np_arange 99000 103000) = {99000..<103000}"
    by (rule set_np_arange)
  have "set (drop 5100 ?f @ drop 4800 ?w @ np_arange 99000 103000)
           \<union> set (take 5100 ?f @ take 4800 ?w)
        = (set (take 5100 ?f) \<union> set (drop 5100 ?f)) \<union> (set (take 4800 ?w) \<union> set (drop 4800 ?w))
            \<union> set (np_arange 99000 103000)"
    unfolding set_append by blast
  also have "\<dots> = {0..<51000} \<union> {51000..<99000} \<union> {99000..<103000::nat}"
    by (simp only: f w g)
  also have "\<dots> = {0..<103000}"
    by auto
  finally show ?thesis .
qed

lemma id_random_ok: "np_random_ok id_random"
  by (simp add: np_random_ok_def id_random_def mset_take_subset)

lemma train_inds_length:
  assumes "np_random_ok R"
  shows "length (drop 5100 (form_shuffled R seed) @ drop 4800 (wild_shuffled R seed)
                   @ np_arange 99000 103000) = 93100"
  by (simp add: form_shuffled_length[OF assms] wild_shuffled_length[OF assms] length_np_arange)


lemma split_train_no_cap:
  assumes "num_samples a \<le> 0"
  shows "split_train R (np_seed R seed) a train_ds val_ds =
           Inr (Subset train_ds
                  (drop 5100 (form_shuffled R seed) @ drop 4800 (wild_shuffled R seed)
                     @ np_arange 99000 103000),
                Some (Subset val_ds
                        (take 5100 (form_shuffled R seed) @ take 4800 (wild_shuffled R seed))))"
  using assms
  by (simp add: split_train_def form_shuffled_def wild_shuffled_def Let_def split: prod.splits)

lemma split_train_cap:
  assumes "np_random_ok R" "0 < num_samples a"
  shows "num_samples a \<le> 93100 \<Longrightarrow>
           split_train R (np_seed R seed) a train_ds val_ds =
             Inr (Subset train_ds
                    (fst (np_choice R
                       (drop 5100 (form_shuffled R seed) @ drop 4800 (wild_shuffled R seed)
                          @ np_arange 99000 103000)
                       (nat (num_samples a))
                       (snd (np_shuffle R (np_arange 51000 99000)
                               (snd (np_shuffle R (np_arange 0 51000) (np_seed R seed))))))),
                  Some (Subset val_ds
                          (take 5100 (form_shuffled R seed)
                             @ take 4800 (wild_shuffled R seed))))"
    and "num_samples a \<le> 93100 \<Longrightarrow>
           length (fst (np_choice R
                       (drop 5100 (form_shuffled R seed) @ drop 4800 (wild_shuffled R seed)
                          @ np_arange 99000 103000)
                       (nat (num_samples a))
                       (snd (np_shuffle R (np_arange 51000 99000)
                               (snd (np_shuffle R (np_arange 0 51000) (np_seed R seed)))))))
             = nat (num_samples a)"
    and "93100 < num_samples a \<Longrightarrow>
           split_train R (np_seed R seed) a train_ds val_ds = Inl ValueError"
proof -
  let ?tr = "drop 5100 (form_shuffled R seed) @ drop 4800 (wild_shuffled R seed)
               @ np_arange 99000 103000"
  let ?g2 = "snd (np_shuffle R (np_arange 51000 99000)
                    (snd (np_shuffle R (np_arange 0 51000) (np_seed R seed))))"
  have l: "int (length ?tr) = 93100"
    using train_inds_length[OF assms(1), of seed] by simp
  have bad: "split_train R (np_seed R seed) a train_ds val_ds = Inl ValueError"
    if "random_choice R ?tr (num_samples a) ?g2 = Inl ValueError"
    using that assms(2)
    by (simp add: split_train_def form_shuffled_def wild_shuffled_def Let_def case_prod_beta)
  have good: "split_train R (np_seed R seed) a train_ds val_ds =
                 Inr (Subset train_ds (fst p),
                      Some (Subset val_ds
                              (take 5100 (form_shuffled R seed)
                                 @ take 4800 (wild_shuffled R seed))))"
    if "random_choice R ?tr (num_samples a) ?g2 = Inr p" for p
    using that assms(2)
    by (simp add: split_train_def form_shuffled_def wild_shuffled_def Let_def case_prod_beta)
  show "split_train R (np_seed R seed) a train_ds val_ds =
             Inr (Subset train_ds (fst (np_choice R ?tr (nat (num_samples a)) ?g2)),
                  Some (Subset val_ds
                          (take 5100 (form_shuffled R seed)
                             @ take 4800 (wild_shuffled R seed))))"
    if c: "num_samples a \<le> 93100"
  proof -
    have "random_choice R ?tr (num_samples a) ?g2
            = Inr (np_choice R ?tr (nat (num_samples a)) ?g2)"
      unfolding random_choice_def l using c by simp
    then show ?thesis by (rule good)
  qed
  show "length (fst (np_choice R ?tr (nat (num_samples a)) ?g2)) = nat (num_samples a)"
    if c: "num_samples a \<le> 93100"
  proof -
    have "nat (num_samples a) \<le> length ?tr"
      using l c by linarith
    then show ?thesis
      using assms(1) by (simp only: np_random_ok_def)
  qed
  show "split_train R (np_seed R seed) a train_ds val_ds = Inl ValueError"
    if "93100 < num_samples a"
  proof -
    have "random_choice R ?tr (num_samples a) ?g2 = Inl ValueError"
      unfolding random_choice_def l using that by simp
    then show ?thesis by (rule bad)
  qed
qed

lemma DataLoader_ok:
  assumes "\<not> shuffle \<or> len_data_set ds \<noteq> 0" "0 < batch_size"
  shows "DataLoader ds batch_size shuffle drop_last coll =
           Inr \<lparr>dl_dataset = ds, dl_batch_size = batch_size, dl_shuffle = shuffle,
                dl_drop_last = drop_last, dl_collate_fn = coll\<rparr>"
  using assms by (auto simp: DataLoader_def)

lemma train_loader_ok:
  assumes "np_random_ok R" "0 < batch_size"
  shows "DataLoader (Subset d (drop 5100 (form_shuffled R seed) @ drop 4800 (wild_shuffled R seed)
                                 @ np_arange 99000 103000)) batch_size True True coll =
           Inr \<lparr>dl_dataset = Subset d (drop 5100 (form_shuffled R seed)
                                          @ drop 4800 (wild_shuffled R seed)
                                          @ np_arange 99000 103000),
                dl_batch_size = batch_size, dl_shuffle = True,
                dl_drop_last = True, dl_collate_fn = coll\<rparr>"
proof (rule DataLoader_ok)
  have "len_data_set (Subset d (drop 5100 (form_shuffled R seed) @ drop 4800 (wild_shuffled R seed)
                                 @ np_arange 99000 103000)) = 93100"
    by (simp only: len_data_set.simps train_inds_length[OF assms(1)])
  then show "\<not> True \<or> len_data_set (Subset d (drop 5100 (form_shuffled R seed)
               @ drop 4800 (wild_shuffled R seed) @ np_arange 99000 103000)) \<noteq> 0"
    by simp
qed (rule assms(2))

text \<open>The three dataset objects of a run.\<close>

lemma get_data_train_no_cap_eq:
  assumes "train a" "num_samples a \<le> 0" "0 \<le> seed" "seed < 2 ^ 32" "0 < batch_size"
    and "np_random_ok R"
  shows "get_data R corpus_len test_len batch_size seed a =
           Inr \<lparr>train_loader =
                  \<lparr>dl_dataset =
                     Subset \<lparr>ds_class = fst (get_dataset a), ds_name = ''train'',
                             ds_transform = get_train_transform seed a, ds_len = corpus_len\<rparr>
                       (drop 5100 (form_shuffled R seed) @ drop 4800 (wild_shuffled R seed)
                          @ np_arange 99000 103000),
                   dl_batch_size = batch_size, dl_shuffle = True, dl_drop_last = True,
                   dl_collate_fn = Some (snd (get_dataset a))\<rparr>,
                val_loader =
                  Some \<lparr>dl_dataset =
                     Subset \<lparr>ds_class = fst (get_dataset a), ds_name = ''train'',
                             ds_transform = get_test_transform a, ds_len = corpus_len\<rparr>
                       (take 5100 (form_shuffled R seed) @ take 4800 (wild_shuffled R seed)),
                   dl_batch_size = batch_size, dl_shuffle = False, dl_drop_last = False,
                   dl_collate_fn = Some (snd (get_dataset a))\<rparr>,
                test_loader =
                  \<lparr>dl_dataset =
                     Whole \<lparr>ds_class = fst (get_dataset a), ds_name = ''public_test'',
                            ds_transform = get_test_transform a, ds_len = test_len\<rparr>,
                   dl_batch_size = batch_size, dl_shuffle = False, dl_drop_last = False,
                   dl_collate_fn = None\<rparr>,
                train_dataset =
                  \<lparr>ds_class = fst (get_dataset a), ds_name = ''train'',
                   ds_transform = get_train_transform seed a, ds_len = corpus_len\<rparr>,
                val_dataset =
                  \<lparr>ds_class = fst (get_dataset a), ds_name = ''train'',
                   ds_transform = get_test_transform a, ds_len = corpus_len\<rparr>,
                test_dataset =
                  \<lparr>ds_class = fst (get_dataset a), ds_name = ''public_test'',
                   ds_transform = get_test_transform a, ds_len = test_len\<rparr>\<rparr>"
  using assms(1-5)
  by (simp add: get_data_def Let_def split_train_no_cap train_loader_ok[OF assms(6,5)]
      DataLoader_ok split: prod.splits)

lemma get_data_all_no_cap_eq:
  assumes "\<not> train a" "num_samples a \<le> 0" "0 \<le> seed" "seed < 2 ^ 32" "0 < batch_size"
    and "0 < corpus_len"
  shows "get_data R corpus_len test_len batch_size seed a =
           Inr \<lparr>train_loader =
                  \<lparr>dl_dataset =
                     Whole \<lparr>ds_class = fst (get_dataset a), ds_name = ''train'',
                            ds_transform = get_train_transform seed a, ds_len = corpus_len\<rparr>,
                   dl_batch_size = batch_size, dl_shuffle = True, dl_drop_last = True,
                   dl_collate_fn = Some (snd (get_dataset a))\<rparr>,
                val_loader = None,
                test_loader =
                  \<lparr>dl_dataset =
                     Whole \<lparr>ds_class = fst (get_dataset a), ds_name = ''public_test'',
                            ds_transform = get_test_transform a, ds_len = test_len\<rparr>,
                   dl_batch_size = batch_size, dl_shuffle = False, dl_drop_last = False,
                   dl_collate_fn = None\<rparr>,
                train_dataset =
                  \<lparr>ds_class = fst (get_dataset a), ds_name = ''train'',
                   ds_transform = get_train_transform seed a, ds_len = corpus_len\<rparr>,
                val_dataset =
                  \<lparr>ds_class = fst (get_dataset a), ds_name = ''train'',
                   ds_transform = get_test_transform a, ds_len = corpus_len\<rparr>,
                test_dataset =
                  \<lparr>ds_class = fst (get_dataset a), ds_name = ''public_test'',
                   ds_transform = get_test_transform a, ds_len = test_len\<rparr>\<rparr>"
  using assms
  by (simp add: get_data_def Let_def split_all_def DataLoader_ok split: prod.splits)

lemma get_data_train_cap:
  assumes "train a" "0 < num_samples a" "0 \<le> seed" "seed < 2 ^ 32" "0 < batch_size"
    and "np_random_ok R"
  shows "num_samples a \<le> 93100 \<Longrightarrow>
           \<exists>r chosen. get_data R corpus_len test_len batch_size seed a = Inr r
             \<and> train_indices r = Some chosen
             \<and> chosen = fst (np_choice R
                    (drop 5100 (form_shuffled R seed) @ drop 4800 (wild_shuffled R seed)
                       @ np_arange 99000 103000)
                    (nat (num_samples a))
                    (snd (np_shuffle R (np_arange 51000 99000)
                            (snd (np_shuffle R (np_arange 0 51000) (np_seed R seed))))))
             \<and> val_indices r =
                 Some (take 5100 (form_shuffled R seed) @ take 4800 (wild_shuffled R seed))"
    and "93100 < num_samples a \<Longrightarrow>
           get_data R corpus_len test_len batch_size seed a = Inl ValueError"
proof -
  show "get_data R corpus_len test_len batch_size seed a = Inl ValueError"
    if "93100 < num_samples a"
    using assms(1,3,4) split_train_cap(3)[OF assms(6,2) that, of seed]
    by (simp add: get_data_def Let_def split: prod.splits)
  show "\<exists>r chosen. get_data R corpus_len test_len batch_size seed a = Inr r
             \<and> train_indices r = Some chosen
             \<and> chosen = fst (np_choice R
                    (drop 5100 (form_shuffled R seed) @ drop 4800 (wild_shuffled R seed)
                       @ np_arange 99000 103000)
                    (nat (num_samples a))
                    (snd (np_shuffle R (np_arange 51000 99000)
                            (snd (np_shuffle R (np_arange 0 51000) (np_seed R seed))))))
             \<and> val_indices r =
                 Some (take 5100 (form_shuffled R seed) @ take 4800 (wild_shuffled R seed))"
    if c: "num_samples a \<le> 93100"
  proof -
    define chosen where "chosen = fst (np_choice R
                    (drop 5100 (form_shuffled R seed) @ drop 4800 (wild_shuffled R seed)
                       @ np_arange 99000 103000)
                    (nat (num_samples a))
                    (snd (np_shuffle R (np_arange 51000 99000)
                            (snd (np_shuffle R (np_arange 0 51000) (np_seed R seed))))))"
    have s: "split_train R (np_seed R seed) a train_ds val_ds =
                 Inr (Subset train_ds chosen,
                      Some (Subset val_ds
                              (take 5100 (form_shuffled R seed)
                                 @ take 4800 (wild_shuffled R seed))))"
      and l: "length chosen = nat (num_samples a)" for train_ds val_ds
      unfolding chosen_def
      using split_train_cap(1)[OF assms(6,2) c, of seed] split_train_cap(2)[OF assms(6,2) c, of seed]
      by simp_all
    have "len_data_set (Subset d chosen) \<noteq> 0" for d
      using l assms(2) by simp
    then have d: "DataLoader (Subset d chosen) batch_size True True coll =
           Inr \<lparr>dl_dataset = Subset d chosen, dl_batch_size = batch_size, dl_shuffle = True,
                dl_drop_last = True, dl_collate_fn = coll\<rparr>" for d coll
      using assms(5) by (intro DataLoader_ok) simp_all
    show ?thesis
      unfolding chosen_def[symmetric]
      using assms(1,3,4,5)
      by (simp add: get_data_def Let_def s d DataLoader_ok train_indices_def val_indices_def
          split: prod.splits)
  qed
qed

text \<open>
  Claim C1. For every seed that \<open>np.random.seed\<close> accepts and every positive batch size,
  in training mode with no sample cap \<open>get_data\<close> returns; its validation loader draws
  from the first 5100 entries of the shuffled form range followed by the first 4800
  entries of the shuffled wild range, its training loader from the rest of both followed
  by the whole synthetic range. The shuffled ranges are permutations of \<open>[0, 51000)\<close> and
  \<open>[51000, 99000)\<close>, so the two prefixes have 5100 and 4800 entries and no validation
  index lies in the synthetic range \<open>[99000, 103000)\<close>.
\<close>

theorem partition_train_mode:
  assumes "np_random_ok R" "train a" "num_samples a \<le> 0"
    and "0 \<le> seed" "seed < 2 ^ 32" "0 < batch_size"
  shows "(\<exists>r vl. get_data R corpus_len test_len batch_size seed a = Inr r
            \<and> val_loader r = Some vl
            \<and> dl_dataset vl =
                Subset (val_dataset r)
                  (take 5100 (form_shuffled R seed) @ take 4800 (wild_shuffled R seed))
            \<and> dl_dataset (train_loader r) =
                Subset (train_dataset r)
                  (drop 5100 (form_shuffled R seed) @ drop 4800 (wild_shuffled R seed)
                     @ np_arange 99000 103000))
         \<and> set (form_shuffled R seed) = {0..<51000}
         \<and> set (wild_shuffled R seed) = {51000..<99000}
         \<and> distinct (form_shuffled R seed) \<and> distinct (wild_shuffled R seed)
         \<and> length (take 5100 (form_shuffled R seed)) = 5100
         \<and> length (take 4800 (wild_shuffled R seed)) = 4800
         \<and> set (np_arange 99000 103000) = {99000..<103000}
         \<and> set (take 5100 (form_shuffled R seed) @ take 4800 (wild_shuffled R seed))
               \<inter> {99000..<103000} = {}"
proof -
  have "\<exists>r vl. get_data R corpus_len test_len batch_size seed a = Inr r
            \<and> val_loader r = Some vl
            \<and> dl_dataset vl =
                Subset (val_dataset r)
                  (take 5100 (form_shuffled R seed) @ take 4800 (wild_shuffled R seed))
            \<and> dl_dataset (train_loader r) =
                Subset (train_dataset r)
                  (drop 5100 (form_shuffled R seed) @ drop 4800 (wild_shuffled R seed)
                     @ np_arange 99000 103000)"
    by (simp add: get_data_train_no_cap_eq[OF assms(2-6) assms(1)])
  moreover have "length (take 5100 (form_shuffled R seed)) = 5100"
    by (simp add: form_shuffled_length[OF assms(1)])
  moreover have "length (take 4800 (wild_shuffled R seed)) = 4800"
    by (simp add: wild_shuffled_length[OF assms(1)])
  ultimately show ?thesis
    using form_shuffled_set[OF assms(1), of seed] wild_shuffled_set[OF assms(1), of seed]
      form_shuffled_distinct[OF assms(1), of seed] wild_shuffled_distinct[OF assms(1), of seed]
      set_np_arange[of 99000 103000] val_no_synthetic[OF assms(1), of seed]
    by blast
qed

text \<open>
  The hypotheses of C1 hold for the reversing generator, the training arguments, the seed
  42 and the batch size 64.
\<close>

theorem partition_train_mode_witness:
  "np_random_ok rev_random \<and> train train_args \<and> num_samples train_args \<le> 0
   \<and> (0::int) \<le> 42 \<and> (42::int) < 2 ^ 32 \<and> (0::int) < 64
   \<and> val_indices (projr (get_data rev_random 103000 1000 64 42 train_args))
       = Some (take 5100 (rev (np_arange 0 51000)) @ take 4800 (rev (np_arange 51000 99000)))
   \<and> train_indices (projr (get_data rev_random 103000 1000 64 42 train_args))
       = Some (drop 5100 (rev (np_arange 0 51000)) @ drop 4800 (rev (np_arange 51000 99000))
                 @ np_arange 99000 103000)
   \<and> set (take 5100 (rev (np_arange 0 51000)) @ take 4800 (rev (np_arange 51000 99000)))
         \<inter> {99000..<103000} = {}"
proof -
  have f: "form_shuffled rev_random 42 = rev (np_arange 0 51000)"
    by (simp add: form_shuffled_def rev_random_def)
  have w: "wild_shuffled rev_random 42 = rev (np_arange 51000 99000)"
    by (simp add: wild_shuffled_def rev_random_def)
  have t: "train train_args" "num_samples train_args \<le> 0"
    by (simp_all add: train_args_def)
  have n: "(0::int) \<le> 42" "(42::int) < 2 ^ 32" "(0::int) < 64"
    by simp_all
  note p = partition_train_mode[OF rev_random_ok t n, of 103000 1000, unfolded f w]
  from p obtain r vl where r: "get_data rev_random 103000 1000 64 42 train_args = Inr r"
    "val_loader r = Some vl"
    "dl_dataset vl = Subset (val_dataset r)
       (take 5100 (rev (np_arange 0 51000)) @ take 4800 (rev (np_arange 51000 99000)))"
    "dl_dataset (train_loader r) = Subset (train_dataset r)
       (drop 5100 (rev (np_arange 0 51000)) @ drop 4800 (rev (np_arange 51000 99000))
          @ np_arange 99000 103000)"
    by blast
  have v: "val_indices (projr (get_data rev_random 103000 1000 64 42 train_args))
       = Some (take 5100 (rev (np_arange 0 51000)) @ take 4800 (rev (np_arange 51000 99000)))"
    by (simp only: r val_indices_def sum.sel option.case indices.simps)
  have tr: "train_indices (projr (get_data rev_random 103000 1000 64 42 train_args))
       = Some (drop 5100 (rev (np_arange 0 51000)) @ drop 4800 (rev (np_arange 51000 99000))
                 @ np_arange 99000 103000)"
    by (simp only: r train_indices_def sum.sel indices.simps)
  from p have "set (take 5100 (rev (np_arange 0 51000)) @ take 4800 (rev (np_arange 51000 99000)))
         \<inter> {99000..<103000} = {}"
    by blast
  with v tr t n rev_random_ok show ?thesis by blast
qed

text \<open>
  Claim C2. For every seed that \<open>np.random.seed\<close> accepts and every positive batch size,
  in training mode with no sample cap \<open>get_data\<close> returns loaders whose training and
  validation index lists share no index and together hold exactly the indices
  \<open>[0, 103000)\<close>.
\<close>

theorem partition_disjoint_cover:
  assumes "np_random_ok R" "train a" "num_samples a \<le> 0"
    and "0 \<le> seed" "seed < 2 ^ 32" "0 < batch_size"
  shows "\<exists>r vl tr va. get_data R corpus_len test_len batch_size seed a = Inr r
           \<and> dl_dataset (train_loader r) = Subset (train_dataset r) tr
           \<and> val_loader r = Some vl \<and> dl_dataset vl = Subset (val_dataset r) va
           \<and> set tr \<inter> set va = {}
           \<and> set tr \<union> set va = {0..<103000}"
  using train_val_disjoint[OF assms(1), of seed] train_val_union[OF assms(1), of seed]
  by (simp add: get_data_train_no_cap_eq[OF assms(2-6) assms(1)])

text \<open>
  The hypotheses of C2 hold for the generator that leaves arrays as they are, the seed 7
  and the batch size 16.
\<close>

theorem partition_disjoint_cover_witness:
  "np_random_ok id_random \<and> train train_args \<and> num_samples train_args \<le> 0
   \<and> (0::int) \<le> 7 \<and> (7::int) < 2 ^ 32 \<and> (0::int) < 16
   \<and> (\<exists>r vl tr va. get_data id_random 103000 1000 16 7 train_args = Inr r
           \<and> dl_dataset (train_loader r) = Subset (train_dataset r) tr
           \<and> val_loader r = Some vl \<and> dl_dataset vl = Subset (val_dataset r) va
           \<and> set tr \<inter> set va = {}
           \<and> set tr \<union> set va = {0..<103000})"
proof -
  have t: "train train_args" "num_samples train_args \<le> 0"
    by (simp_all add: train_args_def)
  have n: "(0::int) \<le> 7" "(7::int) < 2 ^ 32" "(0::int) < 16"
    by simp_all
  show ?thesis
    using partition_disjoint_cover[OF id_random_ok t n, of 103000 1000] t n id_random_ok
    by blast
qed

text \<open>
  Claim C5 fails on the code: with the resize mode 7 and the model name \<open>resnet\<close>, neither
  of which the code names, on a corpus of 103000 samples with the seed 42 and the batch
  size 64, \<open>get_data\<close> returns normally, with the fixed-height pipeline and the second
  dataset class.
\<close>

theorem unsupported_mode_counterexample:
  "\<not> isl (get_data rev_random 103000 1000 64 42 odd_args)
   \<and> ds_class (train_dataset (projr (get_data rev_random 103000 1000 64 42 odd_args)))
       = HandWrittenDatasetV2
   \<and> dl_collate_fn (train_loader (projr (get_data rev_random 103000 1000 64 42 odd_args)))
       = Some collate_fn
   \<and> ds_transform (train_dataset (projr (get_data rev_random 103000 1000 64 42 odd_args)))
       = augmentations 42 odd_args @ [FixedHeightResize 32, FixedWidthPad 128] @ tensor_normalize
   \<and> ds_transform (test_dataset (projr (get_data rev_random 103000 1000 64 42 odd_args)))
       = [Grayscale 3, FixedHeightResize 32, FixedWidthPad 128] @ tensor_normalize"
proof -
  have o: "\<not> train odd_args" "num_samples odd_args \<le> 0"
    by (simp_all add: odd_args_def)
  have d: "get_dataset odd_args = (HandWrittenDatasetV2, collate_fn)"
    by (simp add: get_dataset_def odd_args_def)
  have t1: "get_train_transform 42 odd_args
       = augmentations 42 odd_args @ [FixedHeightResize 32, FixedWidthPad 128] @ tensor_normalize"
    by (simp add: get_train_transform_def odd_args_def)
  have t2: "get_test_transform odd_args
       = [Grayscale 3, FixedHeightResize 32, FixedWidthPad 128] @ tensor_normalize"
    by (simp add: get_test_transform_def odd_args_def)
  show ?thesis
    by (simp add: get_data_all_no_cap_eq[OF o] d t1 t2)
qed

text \<open>
  Claim C5, amended. The selection never fails: every resize mode other than 1 selects the
  fixed-height resize followed by the fixed-width pad, and every model name other than
  \<open>crnn\<close> and \<open>cnnctc\<close> selects \<open>HandWrittenDatasetV2\<close> with \<open>collate_fn\<close>. With a
  seed that \<open>np.random.seed\<close> accepts, a positive batch size, no sample cap and, outside
  training mode, a corpus that is not empty, \<open>get_data\<close> returns normally with these
  selections for every configuration.
\<close>

theorem unsupported_mode_defaults:
  "(resize a \<noteq> 1 \<longrightarrow>
      get_train_transform seed a =
        augmentations seed a @ [FixedHeightResize (height a), FixedWidthPad (width a)]
          @ tensor_normalize
    \<and> get_test_transform a =
        (if grayscale a then [Grayscale 3] else [])
          @ [FixedHeightResize (height a), FixedWidthPad (width a)] @ tensor_normalize)
   \<and> (model_name a \<noteq> ''crnn'' \<and> model_name a \<noteq> ''cnnctc'' \<longrightarrow>
        get_dataset a = (HandWrittenDatasetV2, collate_fn))
   \<and> (np_random_ok R \<and> 0 \<le> seed \<and> seed < 2 ^ 32 \<and> 0 < batch_size
        \<and> num_samples a \<le> 0 \<and> (train a \<or> 0 < corpus_len) \<longrightarrow>
        (\<exists>r. get_data R corpus_len test_len batch_size seed a = Inr r
           \<and> ds_transform (train_dataset r) = get_train_transform seed a
           \<and> ds_transform (val_dataset r) = get_test_transform a
           \<and> ds_transform (test_dataset r) = get_test_transform a
           \<and> ds_class (train_dataset r) = fst (get_dataset a)
           \<and> ds_class (val_dataset r) = fst (get_dataset a)
           \<and> ds_class (test_dataset r) = fst (get_dataset a)
           \<and> dl_collate_fn (train_loader r) = Some (snd (get_dataset a))))"
proof -
  have "resize a \<noteq> 1 \<longrightarrow>
      get_train_transform seed a =
        augmentations seed a @ [FixedHeightResize (height a), FixedWidthPad (width a)]
          @ tensor_normalize
    \<and> get_test_transform a =
        (if grayscale a then [Grayscale 3] else [])
          @ [FixedHeightResize (height a), FixedWidthPad (width a)] @ tensor_normalize"
    by (simp add: get_train_transform_def get_test_transform_def)
  moreover have "model_name a \<noteq> ''crnn'' \<and> model_name a \<noteq> ''cnnctc'' \<longrightarrow>
        get_dataset a = (HandWrittenDatasetV2, collate_fn)"
    by (simp add: get_dataset_def)
  moreover have "\<exists>r. get_data R corpus_len test_len batch_size seed a = Inr r
           \<and> ds_transform (train_dataset r) = get_train_transform seed a
           \<and> ds_transform (val_dataset r) = get_test_transform a
           \<and> ds_transform (test_dataset r) = get_test_transform a
           \<and> ds_class (train_dataset r) = fst (get_dataset a)
           \<and> ds_class (val_dataset r) = fst (get_dataset a)
           \<and> ds_class (test_dataset r) = fst (get_dataset a)
           \<and> dl_collate_fn (train_loader r) = Some (snd (get_dataset a))"
    if h: "np_random_ok R" "0 \<le> seed" "seed < 2 ^ 32" "0 < batch_size"
      "num_samples a \<le> 0" "train a \<or> 0 < corpus_len"
  proof (cases "train a")
    case True
    show ?thesis
      by (simp add: get_data_train_no_cap_eq[OF True h(5,2,3,4,1)])
  next
    case False
    with h(6) have c: "0 < corpus_len" by simp
    show ?thesis
      by (simp add: get_data_all_no_cap_eq[OF False h(5,2,3,4) c])
  qed
  ultimately show ?thesis by blast
qed

text \<open>
  The hypotheses of the amended C5 hold for a configuration with resize mode -3 and the
  model name \<open>transformer\<close>, on a corpus of 7 samples.
\<close>

theorem unsupported_mode_defaults_witness:
  "resize transformer_args \<noteq> 1
   \<and> model_name transformer_args \<noteq> ''crnn'' \<and> model_name transformer_args \<noteq> ''cnnctc''
   \<and> np_random_ok id_random \<and> (0::int) \<le> 1 \<and> (1::int) < 2 ^ 32 \<and> (0::int) < 64
   \<and> num_samples transformer_args \<le> 0 \<and> (0::nat) < 7
   \<and> get_test_transform transformer_args
       = [FixedHeightResize 48, FixedWidthPad 512] @ tensor_normalize
   \<and> get_dataset transformer_args = (HandWrittenDatasetV2, collate_fn)
   \<and> (\<exists>r. get_data id_random 7 3 64 1 transformer_args = Inr r
           \<and> ds_transform (test_dataset r)
               = [FixedHeightResize 48, FixedWidthPad 512] @ tensor_normalize
           \<and> ds_class (train_dataset r) = HandWrittenDatasetV2
           \<and> dl_collate_fn (train_loader r) = Some collate_fn)"
proof -
  have h: "resize transformer_args \<noteq> 1" "model_name transformer_args \<noteq> ''crnn''"
    "model_name transformer_args \<noteq> ''cnnctc''" "num_samples transformer_args \<le> 0"
    by (simp_all add: transformer_args_def)
  have n: "(0::int) \<le> 1" "(1::int) < 2 ^ 32" "(0::int) < 64" "(0::nat) < 7"
    by simp_all
  have v: "grayscale transformer_args = False" "height transformer_args = 48"
    "width transformer_args = 512"
    by (simp_all add: transformer_args_def)
  note t = unsupported_mode_defaults[of transformer_args 1 id_random 64 7 3]
  from t h have "get_test_transform transformer_args =
        (if grayscale transformer_args then [Grayscale 3] else [])
          @ [FixedHeightResize (height transformer_args), FixedWidthPad (width transformer_args)]
          @ tensor_normalize"
    by blast
  then have 1: "get_test_transform transformer_args
       = [FixedHeightResize 48, FixedWidthPad 512] @ tensor_normalize"
    by (simp add: v)
  from t h have 2: "get_dataset transformer_args = (HandWrittenDatasetV2, collate_fn)"
    by blast
  from t h n id_random_ok
  have "\<exists>r. get_data id_random 7 3 64 1 transformer_args = Inr r
           \<and> ds_transform (test_dataset r) = get_test_transform transformer_args
           \<and> ds_class (train_dataset r) = fst (get_dataset transformer_args)
           \<and> dl_collate_fn (train_loader r) = Some (snd (get_dataset transformer_args))"
    by blast
  then have 3: "\<exists>r. get_data id_random 7 3 64 1 transformer_args = Inr r
           \<and> ds_transform (test_dataset r)
               = [FixedHeightResize 48, FixedWidthPad 512] @ tensor_normalize
           \<and> ds_class (train_dataset r) = HandWrittenDatasetV2
           \<and> dl_collate_fn (train_loader r) = Some collate_fn"
    by (simp only: 1 2 fst_conv snd_conv)
  from h n id_random_ok 1 2 3 show ?thesis by blast
qed

text \<open>
  Claim C6 fails on the code: with a corpus of 10 samples, far below every range
  boundary, \<open>get_data\<close> in training mode returns loaders over the same index lists as for
  any other corpus.
\<close>

theorem corpus_size_unchecked_counterexample:
  "\<not> isl (get_data rev_random 10 1000 64 42 train_args)
   \<and> train_indices (projr (get_data rev_random 10 1000 64 42 train_args))
       = Some (drop 5100 (rev (np_arange 0 51000)) @ drop 4800 (rev (np_arange 51000 99000))
                 @ np_arange 99000 103000)
   \<and> val_indices (projr (get_data rev_random 10 1000 64 42 train_args))
       = Some (take 5100 (rev (np_arange 0 51000)) @ take 4800 (rev (np_arange 51000 99000)))
   \<and> ds_len (train_dataset (projr (get_data rev_random 10 1000 64 42 train_args))) = 10"
proof -
  have f: "form_shuffled rev_random 42 = rev (np_arange 0 51000)"
    by (simp add: form_shuffled_def rev_random_def)
  have w: "wild_shuffled rev_random 42 = rev (np_arange 51000 99000)"
    by (simp add: wild_shuffled_def rev_random_def)
  have t: "train train_args" "num_samples train_args \<le> 0"
    by (simp_all add: train_args_def)
  show ?thesis
    by (simp add: get_data_train_no_cap_eq[OF t _ _ _ rev_random_ok] f w
        train_indices_def val_indices_def)
qed

text \<open>
  Claim C6, amended. For a seed that \<open>np.random.seed\<close> accepts and a positive batch
  size, the index lists of training mode do not depend on the corpus size, and neither
  does failure. The range boundaries and reservation counts are constants of the code,
  and \<open>get_data\<close> then fails only with the ValueError of the sample cap: it returns when
  the cap is at most the 93100 training indices and raises ValueError when it is larger.
\<close>

theorem partition_ignores_corpus_size:
  assumes "np_random_ok R" "train a" "0 \<le> seed" "seed < 2 ^ 32" "0 < batch_size"
  shows "map_sum id (\<lambda>r. (train_indices r, val_indices r))
             (get_data R corpus_len test_len batch_size seed a)
           = map_sum id (\<lambda>r. (train_indices r, val_indices r))
               (get_data R corpus_len' test_len batch_size seed a)
         \<and> (num_samples a \<le> 93100 \<longrightarrow>
              (\<exists>r. get_data R corpus_len test_len batch_size seed a = Inr r))
         \<and> (93100 < num_samples a \<longrightarrow>
              get_data R corpus_len test_len batch_size seed a = Inl ValueError)
         \<and> (num_samples a \<le> 0 \<longrightarrow>
              (\<exists>r. get_data R corpus_len test_len batch_size seed a = Inr r
                 \<and> train_indices r =
                     Some (drop 5100 (form_shuffled R seed) @ drop 4800 (wild_shuffled R seed)
                             @ np_arange 99000 103000)
                 \<and> val_indices r =
                     Some (take 5100 (form_shuffled R seed)
                             @ take 4800 (wild_shuffled R seed))))"
proof -
  consider "num_samples a \<le> 0" | "0 < num_samples a" "num_samples a \<le> 93100"
    | "93100 < num_samples a"
    by linarith
  then show ?thesis
  proof cases
    case 1
    have "\<exists>r. get_data R n test_len batch_size seed a = Inr r
                 \<and> train_indices r =
                     Some (drop 5100 (form_shuffled R seed) @ drop 4800 (wild_shuffled R seed)
                             @ np_arange 99000 103000)
                 \<and> val_indices r =
                     Some (take 5100 (form_shuffled R seed)
                             @ take 4800 (wild_shuffled R seed))" for n
      by (simp add: get_data_train_no_cap_eq[OF assms(2) 1 assms(3,4,5,1)]
          train_indices_def val_indices_def)
    from this[of corpus_len] this[of corpus_len'] 1 show ?thesis
      by (auto simp del: id_apply)
  next
    case 2
    note g = get_data_train_cap(1)[OF assms(2) 2(1) assms(3,4,5,1) 2(2)]
    from g[of corpus_len test_len] g[of corpus_len' test_len] 2 show ?thesis
      by (auto simp del: id_apply)
  next
    case 3
    then have p: "0 < num_samples a" by simp
    note g = get_data_train_cap(2)[OF assms(2) p assms(3,4,5,1) 3]
    from g[of corpus_len test_len] g[of corpus_len' test_len] 3 show ?thesis
      by simp
  qed
qed

text \<open>
  The hypotheses of the amended C6 hold for the training arguments on a corpus of 10
  samples: with a cap of 100000 the call fails, with a cap of 500 and with no cap it
  returns.
\<close>

theorem partition_ignores_corpus_size_witness:
  "np_random_ok rev_random \<and> train (train_args\<lparr>num_samples := 100000\<rparr>)
   \<and> train (train_args\<lparr>num_samples := 500\<rparr>) \<and> train train_args
   \<and> (0::int) \<le> 42 \<and> (42::int) < 2 ^ 32 \<and> (0::int) < 64
   \<and> 93100 < num_samples (train_args\<lparr>num_samples := 100000\<rparr>)
   \<and> num_samples (train_args\<lparr>num_samples := 500\<rparr>) \<le> 93100
   \<and> num_samples train_args \<le> 0
   \<and> get_data rev_random 10 1000 64 42 (train_args\<lparr>num_samples := 100000\<rparr>) = Inl ValueError
   \<and> (\<exists>r. get_data rev_random 10 1000 64 42 (train_args\<lparr>num_samples := 500\<rparr>) = Inr r)
   \<and> (\<exists>r. get_data rev_random 10 1000 64 42 train_args = Inr r
          \<and> train_indices r =
              Some (drop 5100 (form_shuffled rev_random 42)
                      @ drop 4800 (wild_shuffled rev_random 42) @ np_arange 99000 103000))"
proof -
  have h: "train (train_args\<lparr>num_samples := 100000\<rparr>)"
    "train (train_args\<lparr>num_samples := 500\<rparr>)" "train train_args"
    "93100 < num_samples (train_args\<lparr>num_samples := 100000\<rparr>)"
    "num_samples (train_args\<lparr>num_samples := 500\<rparr>) \<le> 93100"
    "num_samples train_args \<le> 0"
    by (simp_all add: train_args_def)
  have n: "(0::int) \<le> 42" "(42::int) < 2 ^ 32" "(0::int) < 64"
    by simp_all
  show ?thesis
    using partition_ignores_corpus_size[OF rev_random_ok h(1) n, of 10 1000 10]
      partition_ignores_corpus_size[OF rev_random_ok h(2) n, of 10 1000 10]
      partition_ignores_corpus_size[OF rev_random_ok h(3) n, of 10 1000 10]
      rev_random_ok h n
    by blast
qed

section \<open>Properties of the masked sequence loss\<close>
lemma fill_mask_ok:
  "n \<le> length len \<Longrightarrow>
   fill_mask len D n = Inr (\<lambda>i j. if i < n \<and> j < slice_stop (len ! i) D then 1 else 0)"
proof (induction n)
  case 0
  then show ?case by simp
next
  case (Suc n)
  then have ih: "fill_mask len D n = Inr (\<lambda>i j. if i < n \<and> j < slice_stop (len ! i) D then 1 else 0)"
    by simp
  have "(\<lambda>i j. if i < n \<and> j < slice_stop (len ! i) D then 1 else (0::real))
          (n := (\<lambda>j. if j < slice_stop (len ! n) D then 1
                       else (\<lambda>i j. if i < n \<and> j < slice_stop (len ! i) D then 1 else 0) n j))
        = (\<lambda>i j. if i < Suc n \<and> j < slice_stop (len ! i) D then 1 else 0)"
    by (auto simp: fun_eq_iff less_Suc_eq)
  with Suc.prems ih show ?case by simp
qed

lemma fill_mask_short:
  "length len < n \<Longrightarrow> fill_mask len D n = Inl IndexError"
proof (induction n)
  case 0
  then show ?case by simp
next
  case (Suc n)
  show ?case
  proof (cases "length len < n")
    case True
    with Suc.IH show ?thesis by simp
  next
    case False
    with Suc.prems have "n = length len" by simp
    then show ?thesis by (simp add: fill_mask_ok)
  qed
qed

lemma py_max_Max: "len \<noteq> [] \<Longrightarrow> py_max len = Inr (Max (set len))"
  by (cases len) (simp_all add: py_max_def Max.set_eq_fold[symmetric])

lemma forward_assertion:
  assumes "\<not> requires_grad tgt" "rows tgt \<le> length len" "len \<noteq> []"
    and "Max (set len) \<noteq> int (size1 inp)"
  shows "forward self inp tgt len = Inl AssertionError"
  using assms by (simp add: forward_def Let_def fill_mask_ok py_max_Max)

lemma sum_exp_pos: "0 < (C::nat) \<Longrightarrow> 0 < (\<Sum>k<C. exp (x k :: real))"
  by (rule sum_pos) auto

lemma log_softmax_ln_softmax:
  "0 < C \<Longrightarrow> log_softmax C x c = ln (softmax C x c)"
  using sum_exp_pos[of C x] by (simp add: log_softmax_def softmax_def ln_div)

lemma sum_flat:
  fixes g :: "nat \<Rightarrow> nat \<Rightarrow> real"
  shows "(\<Sum>k<B * D. g (k div D) (k mod D)) = (\<Sum>i<B. \<Sum>t<D. g i t)"
proof -
  have "(\<Sum>k<B * D. g (k div D) (k mod D))
        = (\<Sum>i<B. \<Sum>k = i * D..<i * D + D. g (k div D) (k mod D))"
    by (rule sum.nat_group[symmetric])
  also have "\<dots> = (\<Sum>i<B. \<Sum>t<D. g i t)"
  proof (rule sum.cong[OF refl])
    fix i
    have "(\<Sum>k = i * D..<i * D + D. g (k div D) (k mod D))
          = (\<Sum>t = 0..<D. g ((t + i * D) div D) ((t + i * D) mod D))"
      using sum.shift_bounds_nat_ivl[of "\<lambda>k. g (k div D) (k mod D)" 0 "i * D" D]
      by (simp add: add.commute)
    also have "\<dots> = (\<Sum>t = 0..<D. g i t)"
      by (rule sum.cong) auto
    finally show "(\<Sum>k = i * D..<i * D + D. g (k div D) (k mod D)) = (\<Sum>t<D. g i t)"
      by (simp add: lessThan_atLeast0)
  qed
  finally show ?thesis .
qed

lemma gather_ok:
  assumes "M \<le> N" "\<forall>k<M. 0 \<le> idx k \<and> idx k < int C"
  shows "gather N C inp M idx = Inr (\<lambda>k. inp k (nat (idx k)))"
  using assms by (simp add: gather_def list_all_iff)

lemma forward_value:
  assumes "\<not> requires_grad tgt" "rows tgt \<le> length len" "len \<noteq> []"
    and "Max (set len) = int (size1 inp)" "0 < size2 inp"
    and "rows tgt * min (size1 inp) (cols tgt) \<le> size0 inp * size1 inp"
    and "\<forall>k<rows tgt * min (size1 inp) (cols tgt).
           0 \<le> at2 tgt (k div min (size1 inp) (cols tgt)) (k mod min (size1 inp) (cols tgt))
         \<and> at2 tgt (k div min (size1 inp) (cols tgt)) (k mod min (size1 inp) (cols tgt))
             < int (size2 inp)"
  shows "forward self inp tgt len =
           Inr (normalize self
                  (\<Sum>k<rows tgt * min (size1 inp) (cols tgt).
                      if k div min (size1 inp) (cols tgt) < rows tgt
                         \<and> k mod min (size1 inp) (cols tgt)
                             < slice_stop (len ! (k div min (size1 inp) (cols tgt))) (cols tgt)
                      then 1 else 0)
                  (rows tgt)
                  (\<Sum>k<rows tgt * min (size1 inp) (cols tgt).
                      - log_softmax (size2 inp) (at3 inp (k div size1 inp) (k mod size1 inp))
                          (nat (at2 tgt (k div min (size1 inp) (cols tgt))
                                        (k mod min (size1 inp) (cols tgt))))
                      * (if k div min (size1 inp) (cols tgt) < rows tgt
                            \<and> k mod min (size1 inp) (cols tgt)
                                < slice_stop (len ! (k div min (size1 inp) (cols tgt))) (cols tgt)
                         then 1 else 0)))"
proof -
  have n: "slice_stop (int (size1 inp)) (cols tgt) = min (size1 inp) (cols tgt)"
    by (simp add: slice_stop_def)
  show ?thesis
    using assms(1-5)
    by (simp add: forward_def Let_def fill_mask_ok py_max_Max n
        gather_ok[OF assms(6,7)])
qed

lemma log_softmax_zero2: "log_softmax 2 (\<lambda>c. 0) c = - ln 2"
  by (simp add: log_softmax_def lessThan_Suc numeral_2_eq_2)

text \<open>
  Claim C4 fails on the code: with \<open>def_max_length = 1\<close> and \<open>length = [2]\<close>, and with
  \<open>def_max_length = 3\<close> and \<open>length = [2, -1]\<close>, \<open>forward\<close> returns a loss.
\<close>

theorem length_not_checked_counterexample:
  "forward plain_loss (zero_logits 1 2) (const_target 1 1 0) [2] = Inr (Value (ln 2))
   \<and> forward plain_loss (zero_logits 2 2) (const_target 2 3 0) [2, - 1] = Inr (Value (2 * ln 2))"
proof -
  have a: "forward plain_loss (zero_logits 1 2) (const_target 1 1 0) [2] = Inr (Value (ln 2))"
    by (simp add: forward_def plain_loss_def zero_logits_def const_target_def Let_def
        py_max_def slice_stop_def gather_def normalize_def log_softmax_zero2 fill_mask_ok
        list_all_iff lessThan_nat_numeral lessThan_Suc atLeast0LessThan)
  have b: "forward plain_loss (zero_logits 2 2) (const_target 2 3 0) [2, - 1] = Inr (Value (2 * ln 2))"
    by (simp add: forward_def plain_loss_def zero_logits_def const_target_def Let_def
        py_max_def slice_stop_def gather_def normalize_def log_softmax_zero2 fill_mask_ok
        list_all_iff lessThan_nat_numeral lessThan_Suc atLeast0LessThan)
  show ?thesis using a b by simp
qed

text \<open>
  Claim C4, amended. When \<open>length\<close> has an entry for every row, the mask is built
  without error for any lengths: row \<open>i\<close> holds ones in its first
  \<open>slice_stop (length[i]) def_max_length\<close> positions, which is \<open>def_max_length\<close> for a
  length at or above it and \<open>def_max_length - k\<close> (or 0) for a length \<open>-k\<close>. The call
  fails with an AssertionError when the largest length differs from \<open>input.size(1)\<close>:
  so when every length is negative, and when some length exceeds \<open>input.size(1)\<close>.
\<close>

theorem forward_length_check:
  assumes "\<not> requires_grad tgt" "rows tgt \<le> length len" "len \<noteq> []"
  shows "fill_mask len (cols tgt) (rows tgt) =
           Inr (\<lambda>i j. if i < rows tgt \<and> j < slice_stop (len ! i) (cols tgt) then 1 else 0)
         \<and> (Max (set len) \<noteq> int (size1 inp) \<longrightarrow> forward self inp tgt len = Inl AssertionError)
         \<and> ((\<forall>x\<in>set len. x < 0) \<longrightarrow> forward self inp tgt len = Inl AssertionError)
         \<and> ((\<exists>x\<in>set len. int (size1 inp) < x) \<longrightarrow> forward self inp tgt len = Inl AssertionError)
         \<and> (\<forall>k. int (cols tgt) \<le> k \<longrightarrow> slice_stop k (cols tgt) = cols tgt)
         \<and> (\<forall>k. k < 0 \<longrightarrow> slice_stop k (cols tgt) = cols tgt - nat (- k))"
proof -
  have m: "fill_mask len (cols tgt) (rows tgt) =
           Inr (\<lambda>i j. if i < rows tgt \<and> j < slice_stop (len ! i) (cols tgt) then 1 else 0)"
    by (rule fill_mask_ok[OF assms(2)])
  have a: "Max (set len) \<noteq> int (size1 inp) \<longrightarrow> forward self inp tgt len = Inl AssertionError"
    using forward_assertion[OF assms] by simp
  have neg: "(\<forall>x\<in>set len. x < 0) \<longrightarrow> forward self inp tgt len = Inl AssertionError"
  proof
    assume h: "\<forall>x\<in>set len. x < 0"
    have "Max (set len) \<in> set len" using assms(3) by simp
    with h have "Max (set len) < 0" by blast
    then have "Max (set len) \<noteq> int (size1 inp)" by simp
    with a show "forward self inp tgt len = Inl AssertionError" by simp
  qed
  have big: "(\<exists>x\<in>set len. int (size1 inp) < x) \<longrightarrow> forward self inp tgt len = Inl AssertionError"
  proof
    assume "\<exists>x\<in>set len. int (size1 inp) < x"
    then obtain x where x: "x \<in> set len" "int (size1 inp) < x" by blast
    then have "x \<le> Max (set len)" by (simp add: Max_ge)
    with x have "Max (set len) \<noteq> int (size1 inp)" by linarith
    with a show "forward self inp tgt len = Inl AssertionError" by simp
  qed
  have s1: "\<forall>k. int (cols tgt) \<le> k \<longrightarrow> slice_stop k (cols tgt) = cols tgt"
    by (auto simp: slice_stop_def)
  have s2: "\<forall>k. k < 0 \<longrightarrow> slice_stop k (cols tgt) = cols tgt - nat (- k)"
    by (auto simp: slice_stop_def)
  show ?thesis using m a neg big s1 s2 by blast
qed

text \<open>
  The hypotheses of the amended C4 hold for two rows with the lengths -1 and -2.
\<close>

theorem forward_length_check_witness:
  "\<not> requires_grad (const_target 2 3 0) \<and> rows (const_target 2 3 0) \<le> length [- 1, - 2 :: int]
   \<and> [- 1, - 2 :: int] \<noteq> []
   \<and> forward plain_loss (zero_logits 2 2) (const_target 2 3 0) [- 1, - 2] = Inl AssertionError
   \<and> slice_stop 5 (cols (const_target 2 3 0)) = 3
   \<and> slice_stop (- 1) (cols (const_target 2 3 0)) = 2"
  using forward_length_check[of "const_target 2 3 0" "[- 1, - 2]" "zero_logits 2 2" plain_loss]
  by (simp add: const_target_def)

text \<open>
  Claim C7 fails on the code for a target that is no class: with two classes and the
  target 2 in the masked second row, \<open>gather\<close> raises and no loss is returned.
\<close>

theorem masked_row_bad_target_counterexample:
  "forward plain_loss (zero_logits 2 2)
     \<lparr>rows = 2, cols = 3, requires_grad = False, at2 = (\<lambda>i j. if i = 1 then 2 else 0)\<rparr> [2, 0]
   = Inl RuntimeError"
  by (simp add: forward_def plain_loss_def zero_logits_def Let_def
      py_max_def slice_stop_def gather_def fill_mask_ok
      list_all_iff lessThan_nat_numeral lessThan_Suc atLeast0LessThan)

text \<open>
  Claim C7, amended. With batch size 2, \<open>def_max_length\<close> 3, \<open>length = [2, 0]\<close>,
  logits that are finite numbers with a finite log-softmax (the reals of this model) and
  targets that are classes in the first two columns, the loss is the normalised sum of the
  two terms of the first row: the second row contributes zero whatever such logits it
  holds and whichever classes its targets are, and the third target column is not read.
\<close>

theorem masked_row_contributes_zero:
  assumes "rows tgt = 2" "cols tgt = 3" "\<not> requires_grad tgt"
    and "size0 inp = 2" "size1 inp = 2" "0 < size2 inp"
    and "\<forall>i<2. \<forall>j<2. 0 \<le> at2 tgt i j \<and> at2 tgt i j < int (size2 inp)"
  shows "forward self inp tgt [2, 0] =
           Inr (normalize self 2 2
                  (- log_softmax (size2 inp) (at3 inp 0 0) (nat (at2 tgt 0 0))
                   - log_softmax (size2 inp) (at3 inp 0 1) (nat (at2 tgt 0 1))))"
proof -
  have valid: "\<forall>k<rows tgt * min (size1 inp) (cols tgt).
           0 \<le> at2 tgt (k div min (size1 inp) (cols tgt)) (k mod min (size1 inp) (cols tgt))
         \<and> at2 tgt (k div min (size1 inp) (cols tgt)) (k mod min (size1 inp) (cols tgt))
             < int (size2 inp)"
  proof (intro allI impI)
    fix k assume "k < rows tgt * min (size1 inp) (cols tgt)"
    then have "k < 4" using assms(1,2,5) by simp
    then have "k div 2 < 2" "k mod 2 < 2" by auto
    with assms(7) have "0 \<le> at2 tgt (k div 2) (k mod 2) \<and> at2 tgt (k div 2) (k mod 2) < int (size2 inp)"
      by blast
    then show "0 \<le> at2 tgt (k div min (size1 inp) (cols tgt)) (k mod min (size1 inp) (cols tgt))
         \<and> at2 tgt (k div min (size1 inp) (cols tgt)) (k mod min (size1 inp) (cols tgt))
             < int (size2 inp)"
      using assms(2,5) by simp
  qed
  have "forward self inp tgt [2, 0] =
           Inr (normalize self
                  (\<Sum>k<rows tgt * min (size1 inp) (cols tgt).
                      if k div min (size1 inp) (cols tgt) < rows tgt
                         \<and> k mod min (size1 inp) (cols tgt)
                             < slice_stop ([2, 0] ! (k div min (size1 inp) (cols tgt))) (cols tgt)
                      then 1 else 0)
                  (rows tgt)
                  (\<Sum>k<rows tgt * min (size1 inp) (cols tgt).
                      - log_softmax (size2 inp) (at3 inp (k div size1 inp) (k mod size1 inp))
                          (nat (at2 tgt (k div min (size1 inp) (cols tgt))
                                        (k mod min (size1 inp) (cols tgt))))
                      * (if k div min (size1 inp) (cols tgt) < rows tgt
                            \<and> k mod min (size1 inp) (cols tgt)
                                < slice_stop ([2, 0] ! (k div min (size1 inp) (cols tgt))) (cols tgt)
                         then 1 else 0)))"
    using assms(1-6) by (intro forward_value valid) simp_all
  then show ?thesis
    using assms(1,2,5)
    by (simp add: slice_stop_def lessThan_nat_numeral lessThan_Suc algebra_simps)
qed

text \<open>
  The hypotheses of the amended C7 hold for \<open>logits_a\<close> and \<open>target_a\<close>: the loss is
  \<open>ln 2\<close>, the two terms of the first row divided by the batch size.
\<close>

theorem masked_row_contributes_zero_witness:
  "rows target_a = 2 \<and> cols target_a = 3 \<and> \<not> requires_grad target_a
   \<and> size0 logits_a = 2 \<and> size1 logits_a = 2 \<and> 0 < size2 logits_a
   \<and> 0 \<le> at2 target_a 1 1 \<and> at2 target_a 1 1 < int (size2 logits_a)
   \<and> forward plain_loss logits_a target_a [2, 0] = Inr (Value (ln 2))"
  using masked_row_contributes_zero[of target_a logits_a plain_loss]
  by (simp add: target_a_def logits_a_def plain_loss_def normalize_def log_softmax_zero2)


lemma log_softmax_b: "log_softmax 2 (\<lambda>c. if c = 0 then 0 else ln 3) c = (if c = 0 then 0 else ln 3) - ln 4"
  by (simp add: log_softmax_def lessThan_nat_numeral lessThan_Suc)

lemma softmax_b0: "softmax 2 (\<lambda>c. if c = 0 then 0 else ln 3) 0 = 1 / 4"
  by (simp add: softmax_def lessThan_nat_numeral lessThan_Suc)

lemma softmax_b1: "softmax 2 (\<lambda>c. if c = 0 then 0 else ln 3) (Suc 0) = 3 / 4"
  by (simp add: softmax_def lessThan_nat_numeral lessThan_Suc)

lemma standard_mean_b:
  "standard_mean_cross_entropy logits_b target_b = (4 * ln 4 - 3 * ln 3) / 4"
  by (simp add: standard_mean_cross_entropy_def cross_entropy_def logits_b_def target_b_def
      lessThan_nat_numeral lessThan_Suc softmax_b0 softmax_b1 ln_div)

text \<open>
  Claim C8 fails on the code: for one sample of two steps with zero logits over two
  classes and a full mask, the loss is \<open>2 ln 2\<close> where the standard mean cross-entropy
  is \<open>ln 2\<close>.
\<close>

theorem standard_mean_counterexample:
  "forward plain_loss (zero_logits 1 2) (const_target 1 2 0) [2] = Inr (Value (2 * ln 2))
   \<and> standard_mean_cross_entropy (zero_logits 1 2) (const_target 1 2 0) = ln 2
   \<and> 2 * ln 2 \<noteq> ln (2::real)"
proof -
  have a: "forward plain_loss (zero_logits 1 2) (const_target 1 2 0) [2] = Inr (Value (2 * ln 2))"
    by (simp add: forward_def plain_loss_def zero_logits_def const_target_def Let_def
        py_max_def slice_stop_def gather_def normalize_def log_softmax_zero2 fill_mask_ok
        list_all_iff lessThan_nat_numeral lessThan_Suc atLeast0LessThan)
  have b: "standard_mean_cross_entropy (zero_logits 1 2) (const_target 1 2 0) = ln 2"
    by (simp add: standard_mean_cross_entropy_def cross_entropy_def zero_logits_def
        const_target_def softmax_def lessThan_nat_numeral lessThan_Suc ln_div)
  have "0 < ln (2::real)" by simp
  then have c: "2 * ln 2 \<noteq> ln (2::real)" by linarith
  show ?thesis using a b c by blast
qed

text \<open>
  Claim C8, amended. When every length equals \<open>def_max_length\<close>, the input has that
  sequence length, the targets are classes, and only \<open>sample_normalize\<close> is set, the loss
  is the sum of the cross-entropy over all positions divided by the batch size, which is
  \<open>def_max_length\<close> times the standard mean cross-entropy of the logits against the
  targets.
\<close>

theorem full_mask_loss:
  assumes "rows tgt = B" "cols tgt = D" "\<not> requires_grad tgt"
    and "size0 inp = B" "size1 inp = D" "0 < size2 inp" "0 < B"
    and "\<forall>i<B. \<forall>j<D. 0 \<le> at2 tgt i j \<and> at2 tgt i j < int (size2 inp)"
    and "sample_normalize self" "\<not> sequence_normalize self"
  shows "forward self inp tgt (replicate B (int D)) =
           Inr (Value ((\<Sum>i<B. cross_entropy inp tgt i) / real B))
         \<and> (\<Sum>i<B. cross_entropy inp tgt i) / real B
             = real D * standard_mean_cross_entropy inp tgt"
proof -
  let ?len = "replicate B (int D)"
  have valid: "\<forall>k<rows tgt * min (size1 inp) (cols tgt).
           0 \<le> at2 tgt (k div min (size1 inp) (cols tgt)) (k mod min (size1 inp) (cols tgt))
         \<and> at2 tgt (k div min (size1 inp) (cols tgt)) (k mod min (size1 inp) (cols tgt))
             < int (size2 inp)"
  proof (intro allI impI)
    fix k assume "k < rows tgt * min (size1 inp) (cols tgt)"
    then have k: "k < B * D" using assms(1,2,5) by simp
    then have "0 < D" by (cases D) simp_all
    then have "k mod D < D" by simp
    moreover have "k div D < B" using k by (simp add: less_mult_imp_div_less)
    ultimately have "0 \<le> at2 tgt (k div D) (k mod D) \<and> at2 tgt (k div D) (k mod D) < int (size2 inp)"
      using assms(8) by blast
    then show "0 \<le> at2 tgt (k div min (size1 inp) (cols tgt)) (k mod min (size1 inp) (cols tgt))
         \<and> at2 tgt (k div min (size1 inp) (cols tgt)) (k mod min (size1 inp) (cols tgt))
             < int (size2 inp)"
      using assms(2,5) by simp
  qed
  have fwd: "forward self inp tgt ?len =
           Inr (normalize self
                  (\<Sum>k<rows tgt * min (size1 inp) (cols tgt).
                      if k div min (size1 inp) (cols tgt) < rows tgt
                         \<and> k mod min (size1 inp) (cols tgt)
                             < slice_stop (?len ! (k div min (size1 inp) (cols tgt))) (cols tgt)
                      then 1 else 0)
                  (rows tgt)
                  (\<Sum>k<rows tgt * min (size1 inp) (cols tgt).
                      - log_softmax (size2 inp) (at3 inp (k div size1 inp) (k mod size1 inp))
                          (nat (at2 tgt (k div min (size1 inp) (cols tgt))
                                        (k mod min (size1 inp) (cols tgt))))
                      * (if k div min (size1 inp) (cols tgt) < rows tgt
                            \<and> k mod min (size1 inp) (cols tgt)
                                < slice_stop (?len ! (k div min (size1 inp) (cols tgt))) (cols tgt)
                         then 1 else 0)))"
    using assms(1-7) by (intro forward_value valid) simp_all
  have ones: "(if k div D < B \<and> k mod D < slice_stop (?len ! (k div D)) D then 1 else (0::real)) = 1"
    if "k < B * D" for k
  proof -
    have "0 < D" using that by (cases D) simp_all
    moreover have "k div D < B" using that by (simp add: less_mult_imp_div_less)
    ultimately show ?thesis by (simp add: slice_stop_def)
  qed
  have total: "(\<Sum>k<B * D.
                  - log_softmax (size2 inp) (at3 inp (k div D) (k mod D))
                      (nat (at2 tgt (k div D) (k mod D)))
                  * (if k div D < B \<and> k mod D < slice_stop (?len ! (k div D)) D then 1 else 0))
               = (\<Sum>k<B * D.
                  - ln (softmax (size2 inp) (at3 inp (k div D) (k mod D))
                      (nat (at2 tgt (k div D) (k mod D)))))"
    by (rule sum.cong) (simp_all add: ones log_softmax_ln_softmax[OF assms(6)])
  also have "\<dots> = (\<Sum>i<B. \<Sum>t<D. - ln (softmax (size2 inp) (at3 inp i t) (nat (at2 tgt i t))))"
    by (rule sum_flat[where g = "\<lambda>i t. - ln (softmax (size2 inp) (at3 inp i t) (nat (at2 tgt i t)))"])
  finally have s: "(\<Sum>k<B * D.
                  - log_softmax (size2 inp) (at3 inp (k div D) (k mod D))
                      (nat (at2 tgt (k div D) (k mod D)))
                  * (if k div D < B \<and> k mod D < slice_stop (?len ! (k div D)) D then 1 else 0))
               = (\<Sum>i<B. cross_entropy inp tgt i)"
    by (simp add: cross_entropy_def assms(5))
  have "forward self inp tgt ?len =
           Inr (normalize self
                  (\<Sum>k<B * D. if k div D < B \<and> k mod D < slice_stop (?len ! (k div D)) D
                                then 1 else 0)
                  B
                  (\<Sum>k<B * D.
                      - log_softmax (size2 inp) (at3 inp (k div D) (k mod D))
                          (nat (at2 tgt (k div D) (k mod D)))
                      * (if k div D < B \<and> k mod D < slice_stop (?len ! (k div D)) D
                         then 1 else 0)))"
    using fwd by (simp only: assms(1,2,5) min.idem)
  then have "forward self inp tgt ?len =
           Inr (normalize self
                  (\<Sum>k<B * D. if k div D < B \<and> k mod D < slice_stop (?len ! (k div D)) D
                                then 1 else 0)
                  B (\<Sum>i<B. cross_entropy inp tgt i))"
    by (simp only: s)
  then have main: "forward self inp tgt ?len =
           Inr (Value ((\<Sum>i<B. cross_entropy inp tgt i) / real B))"
    using assms(7,9,10)
    by (simp add: normalize_def)
  have "(\<Sum>i<B. cross_entropy inp tgt i) / real B
             = real D * standard_mean_cross_entropy inp tgt"
  proof (cases "D = 0")
    case True
    then show ?thesis
      by (simp add: cross_entropy_def assms(5))
  next
    case False
    then show ?thesis
      by (simp add: standard_mean_cross_entropy_def assms(4,5))
  qed
  with main show ?thesis by simp
qed

text \<open>
  The hypotheses of the amended C8 hold for \<open>logits_b\<close> and \<open>target_b\<close>, two samples
  of two steps: the loss is \<open>(4 ln 4 - 3 ln 3) / 2\<close>, twice the standard mean.
\<close>

theorem full_mask_loss_witness:
  "rows target_b = 2 \<and> cols target_b = 2 \<and> \<not> requires_grad target_b
   \<and> size0 logits_b = 2 \<and> size1 logits_b = 2 \<and> 0 < size2 logits_b \<and> (0::nat) < 2
   \<and> 0 \<le> at2 target_b 1 1 \<and> at2 target_b 1 1 < int (size2 logits_b)
   \<and> sample_normalize plain_loss \<and> \<not> sequence_normalize plain_loss
   \<and> forward plain_loss logits_b target_b [2, 2] = Inr (Value ((4 * ln 4 - 3 * ln 3) / 2))
   \<and> standard_mean_cross_entropy logits_b target_b = (4 * ln 4 - 3 * ln 3) / 4"
proof -
  have r: "replicate 2 (int 2) = [2, 2]"
    by (simp add: numeral_2_eq_2)
  have h: "rows target_b = 2" "cols target_b = 2" "\<not> requires_grad target_b"
    "size0 logits_b = 2" "size1 logits_b = 2" "0 < size2 logits_b" "(0::nat) < 2"
    by (simp_all add: target_b_def logits_b_def)
  have v: "\<forall>i<2. \<forall>j<2. 0 \<le> at2 target_b i j \<and> at2 target_b i j < int (size2 logits_b)"
    by (simp add: target_b_def logits_b_def)
  have p: "sample_normalize plain_loss" "\<not> sequence_normalize plain_loss"
    by (simp_all add: plain_loss_def)
  note t = full_mask_loss[OF h v p, unfolded r]
  from t have "forward plain_loss logits_b target_b [2, 2]
      = Inr (Value (real 2 * standard_mean_cross_entropy logits_b target_b))"
    by simp
  then have f: "forward plain_loss logits_b target_b [2, 2]
      = Inr (Value ((4 * ln 4 - 3 * ln 3) / 2))"
    by (simp add: standard_mean_b)
  have e: "0 \<le> at2 target_b 1 1" "at2 target_b 1 1 < int (size2 logits_b)"
    by (simp_all add: target_b_def logits_b_def)
  from h p e f standard_mean_b show ?thesis by blast
qed

text \<open>
  Claim C10. \<open>forward\<close> returns the same for a module and for the module with any other
  \<open>weight\<close>, \<open>size_average\<close> and \<open>ignore_index\<close>; and two constructions that differ
  in these three arguments only fail alike or give modules on which \<open>forward\<close> agrees.
\<close>

theorem unused_constructor_arguments:
  "forward (self\<lparr>weight := w, size_average := sa, ignore_index := ii\<rparr>) inp tgt len
     = forward self inp tgt len
   \<and> ((init w1 sa1 ii1 seqn samn = Inl AssertionError \<and> init w2 sa2 ii2 seqn samn = Inl AssertionError)
      \<or> (\<exists>m1 m2. init w1 sa1 ii1 seqn samn = Inr m1 \<and> init w2 sa2 ii2 seqn samn = Inr m2
            \<and> forward m1 inp tgt len = forward m2 inp tgt len))"
proof -
  have n: "normalize (s\<lparr>weight := w', size_average := sa', ignore_index := ii'\<rparr>) a b c
             = normalize s a b c"
    for s w' sa' ii' a b c
    by (simp add: normalize_def)
  have a: "forward (s\<lparr>weight := w', size_average := sa', ignore_index := ii'\<rparr>) inp tgt len
     = forward s inp tgt len" for s w' sa' ii'
    unfolding forward_def Let_def n ..
  let ?m1 = "\<lparr>weight = w1, size_average = sa1, ignore_index = ii1,
                sequence_normalize = seqn, sample_normalize = samn\<rparr>"
  let ?m2 = "\<lparr>weight = w2, size_average = sa2, ignore_index = ii2,
                sequence_normalize = seqn, sample_normalize = samn\<rparr>"
  have "?m1 = ?m2\<lparr>weight := w1, size_average := sa1, ignore_index := ii1\<rparr>"
    by simp
  then have "forward ?m1 inp tgt len = forward ?m2 inp tgt len"
    by (simp only: a)
  then have b: "(init w1 sa1 ii1 seqn samn = Inl AssertionError \<and> init w2 sa2 ii2 seqn samn = Inl AssertionError)
      \<or> (\<exists>m1 m2. init w1 sa1 ii1 seqn samn = Inr m1 \<and> init w2 sa2 ii2 seqn samn = Inr m2
            \<and> forward m1 inp tgt len = forward m2 inp tgt len)"
    by (simp add: init_def)
  show ?thesis using a b by blast
qed

end
